theory Spec2Isabelle
  imports Complex_Main
begin

section \<open>Graph pipeline of gcn.py: encoding, normalisation, split, training, evaluation\<close>

text \<open>
  The development embeds the functions of \<^verbatim>\<open>Graph Based/GCN/gcn.py\<close>:
  \<^verbatim>\<open>nx_to_pyg_data\<close>, the label standardisation, \<^verbatim>\<open>split_data\<close>,
  \<^verbatim>\<open>train_model\<close> and \<^verbatim>\<open>evaluate_model\<close>.

  Tensor entries are floating-point numbers. They are modelled by the type \<open>fl\<close>: a
  real number, one of the two infinities, or NaN; signed zeros are not distinguished.
  The operations \<open>fadd\<close>, \<open>fsub\<close>, \<open>fmul\<close>, \<open>fdiv\<close>, \<open>fsqrt\<close> are exact on the finite
  numbers and model where the arithmetic leaves them: \<open>0/0\<close>, \<open>x/0\<close>, \<open>0 * inf\<close>, the mean
  of an empty array. The function \<open>f64\<close> rounds a real number to the nearest binary64
  number, and the operations \<open>radd\<close>, \<open>rsub\<close>, \<open>rmul\<close>, \<open>rdiv\<close>, \<open>rsqrt\<close> are the exact
  ones followed by this rounding. The partitioner, whose sizes are ceilings and
  truncations of products of Python floats, and the correlation coefficient, which
  numpy computes in binary64, use the rounded operations. The losses of the trainer, the
  label standardisation and the error metrics are written with the exact operations:
  rounding does not change where they are NaN, 0 or 100, which is what is stated of the
  code below; the decimal values in the runs of the small learner (a weight 0.4, a loss
  33.64) are those of its exact arithmetic.
\<close>

subsection \<open>Exceptions\<close>

datatype error =
    KeyError string
  | ValueError
  | IndexError
  | ZeroDivisionError
  | OverflowError
  | TypeError

subsection \<open>Floating-point values\<close>

datatype fl = Fin real | PInf | NInf | NaN

fun fneg :: "fl \<Rightarrow> fl" where
  "fneg (Fin a) = Fin (- a)"
| "fneg PInf = NInf"
| "fneg NInf = PInf"
| "fneg NaN = NaN"

fun fadd :: "fl \<Rightarrow> fl \<Rightarrow> fl" where
  "fadd (Fin a) (Fin b) = Fin (a + b)"
| "fadd NaN _ = NaN"
| "fadd _ NaN = NaN"
| "fadd PInf NInf = NaN"
| "fadd NInf PInf = NaN"
| "fadd PInf _ = PInf"
| "fadd _ PInf = PInf"
| "fadd NInf _ = NInf"
| "fadd _ NInf = NInf"

definition fsub :: "fl \<Rightarrow> fl \<Rightarrow> fl" where
  "fsub a b = fadd a (fneg b)"

text \<open>Sign of a value as the multiplication and division rules need it: \<open>None\<close> for NaN.\<close>

fun fsgn :: "fl \<Rightarrow> int option" where
  "fsgn (Fin a) = Some (if a < 0 then - 1 else if a = 0 then 0 else 1)"
| "fsgn PInf = Some 1"
| "fsgn NInf = Some (- 1)"
| "fsgn NaN = None"

definition inf_of_sign :: "int \<Rightarrow> fl" where
  "inf_of_sign s = (if s < 0 then NInf else if s = 0 then NaN else PInf)"

fun fmul :: "fl \<Rightarrow> fl \<Rightarrow> fl" where
  "fmul (Fin a) (Fin b) = Fin (a * b)"
| "fmul a b =
     (case (fsgn a, fsgn b) of
        (Some s, Some t) \<Rightarrow> inf_of_sign (s * t)
      | _ \<Rightarrow> NaN)"

fun fdiv :: "fl \<Rightarrow> fl \<Rightarrow> fl" where
  "fdiv (Fin a) (Fin b) =
     (if b \<noteq> 0 then Fin (a / b)
      else if a = 0 then NaN
      else if a < 0 then NInf else PInf)"
| "fdiv (Fin a) PInf = Fin 0"
| "fdiv (Fin a) NInf = Fin 0"
| "fdiv PInf (Fin b) = (if b < 0 then NInf else PInf)"
| "fdiv NInf (Fin b) = (if b < 0 then PInf else NInf)"
| "fdiv _ _ = NaN"

fun fsqrt :: "fl \<Rightarrow> fl" where
  "fsqrt (Fin a) = (if a < 0 then NaN else Fin (sqrt a))"
| "fsqrt PInf = PInf"
| "fsqrt NInf = NaN"
| "fsqrt NaN = NaN"

fun fabs :: "fl \<Rightarrow> fl" where
  "fabs (Fin a) = Fin \<bar>a\<bar>"
| "fabs PInf = PInf"
| "fabs NInf = PInf"
| "fabs NaN = NaN"

text \<open>\<^verbatim>\<open>np.sign\<close>: \<open>-1\<close>, \<open>0\<close> or \<open>1\<close>, and NaN for NaN.\<close>

fun np_sign :: "fl \<Rightarrow> fl" where
  "np_sign (Fin a) = Fin (sgn a)"
| "np_sign PInf = Fin 1"
| "np_sign NInf = Fin (- 1)"
| "np_sign NaN = NaN"

text \<open>Floating-point \<^verbatim>\<open>==\<close>: NaN is equal to nothing, itself included.\<close>

definition feq :: "fl \<Rightarrow> fl \<Rightarrow> bool" where
  "feq a b = (a \<noteq> NaN \<and> b \<noteq> NaN \<and> a = b)"

definition fsum :: "fl list \<Rightarrow> fl" where
  "fsum xs = foldl fadd (Fin 0) xs"

text \<open>The mean of an array: the sum divided by the number of entries, so \<open>0/0 = NaN\<close>
  on an empty array.\<close>

definition fmean :: "fl list \<Rightarrow> fl" where
  "fmean xs = fdiv (fsum xs) (Fin (real (length xs)))"

definition is_finite :: "fl \<Rightarrow> bool" where
  "is_finite a = (case a of Fin _ \<Rightarrow> True | _ \<Rightarrow> False)"

subsection \<open>Rounding to binary64\<close>

text \<open>
  A binary64 number is \<open>r * 2 ^ q\<close> with an integer \<open>r\<close> of at most 53 bits and
  \<open>-1074 \<le> q \<le> 971\<close>. \<open>bits n\<close> is the number of binary digits of \<open>n\<close>, and \<open>ilog2 a\<close>
  the exponent \<open>e\<close> with \<open>2 ^ e \<le> a < 2 ^ (e + 1)\<close>, for \<open>a > 0\<close>.
\<close>

function bits :: "int \<Rightarrow> nat" where
  "bits n = (if n \<le> 0 then 0 else Suc (bits (n div 2)))"
  by pat_completeness auto
termination
  by (relation "measure nat") auto

declare bits.simps [simp del]

definition ilog2 :: "real \<Rightarrow> int" where
  "ilog2 a = (if 1 \<le> a then int (bits \<lfloor>a\<rfloor>) - 1
              else - int (bits (\<lceil>1 / a\<rceil> - 1)))"

text \<open>Rounding to the nearest integer, a tie to the even one.\<close>

definition round_half_even :: "real \<Rightarrow> int" where
  "round_half_even m =
     (let f = \<lfloor>m\<rfloor>; d = m - real_of_int f
      in if d < 1 / 2 then f else if 1 / 2 < d then f + 1 else if even f then f else f + 1)"

text \<open>
  Rounding to nearest, ties to even: the magnitude is rounded to a multiple of
  \<open>2 ^ q\<close>, where \<open>q\<close> is 52 below its exponent and at least \<open>-1074\<close> (the subnormal
  numbers); the result overflows to an infinity when it reaches \<open>2 ^ 1024\<close>, that is when
  the exponent is 1024 or more, or is 1023 and the significand rounds up to \<open>2 ^ 53\<close>.
\<close>

definition f64 :: "real \<Rightarrow> fl" where
  "f64 v =
     (if v = 0 then Fin 0
      else
        let a = \<bar>v\<bar>;
            e = ilog2 a;
            q = max (e - 52) (- 1074);
            r = round_half_even (a / 2 powi q)
        in if 1024 \<le> e \<or> (e = 1023 \<and> 2 ^ 53 \<le> r) then (if v < 0 then NInf else PInf)
           else Fin ((if v < 0 then - 1 else 1) * (real_of_int r * 2 powi q)))"

definition rnd :: "fl \<Rightarrow> fl" where
  "rnd a = (case a of Fin v \<Rightarrow> f64 v | _ \<Rightarrow> a)"

definition radd :: "fl \<Rightarrow> fl \<Rightarrow> fl" where
  "radd a b = rnd (fadd a b)"

definition rsub :: "fl \<Rightarrow> fl \<Rightarrow> fl" where
  "rsub a b = rnd (fsub a b)"

definition rmul :: "fl \<Rightarrow> fl \<Rightarrow> fl" where
  "rmul a b = rnd (fmul a b)"

definition rdiv :: "fl \<Rightarrow> fl \<Rightarrow> fl" where
  "rdiv a b = rnd (fdiv a b)"

definition rsqrt :: "fl \<Rightarrow> fl" where
  "rsqrt a = rnd (fsqrt a)"

definition rsum :: "fl list \<Rightarrow> fl" where
  "rsum xs = foldl radd (Fin 0) xs"

definition rmean :: "fl list \<Rightarrow> fl" where
  "rmean xs = rdiv (rsum xs) (Fin (real (length xs)))"

text \<open>The Python float that a decimal literal denotes; the ratios of the calls below are
  written with it.\<close>

definition py_float :: "real \<Rightarrow> real" where
  "py_float v = (case f64 v of Fin c \<Rightarrow> c | _ \<Rightarrow> 0)"

subsection \<open>Encoding: \<^verbatim>\<open>nx_to_pyg_data\<close>\<close>

text \<open>
  A networkx graph as the function reads it: \<^verbatim>\<open>graph.nodes(data=True)\<close> is the list of
  nodes with their attribute dictionaries, in the graph's enumeration order, and
  \<^verbatim>\<open>graph.edges()\<close> the list of pairs of node names.
\<close>

type_synonym attrs = "string \<rightharpoonup> real"

record nx_graph =
  g_nodes :: "(string \<times> attrs) list"
  g_edges :: "(string \<times> string) list"


text \<open>The \<^verbatim>\<open>Data\<close> object; \<^verbatim>\<open>edge_index\<close> is held as the list of its columns.\<close>

record pyg_data =
  x :: "fl list list"
  edge_index :: "(nat \<times> nat) list"
  y :: "fl list"

text \<open>\<^verbatim>\<open>float(data.get(key, 0))\<close>\<close>

definition get_float :: "attrs \<Rightarrow> string \<Rightarrow> fl" where
  "get_float dat key = Fin (case dat key of None \<Rightarrow> 0 | Some v \<Rightarrow> v)"

definition feature_row :: "attrs \<Rightarrow> fl list" where
  "feature_row dat =
     [get_float dat ''volume_weighted_sentiment'',
      get_float dat ''daily_return'',
      get_float dat ''rolling_avg'',
      get_float dat ''volatility'',
      get_float dat ''momentum'']"

text \<open>The first loop, over \<^verbatim>\<open>enumerate(graph.nodes(data=True))\<close>, with its three
  accumulators.\<close>

fun node_loop ::
  "nat \<Rightarrow> (string \<times> attrs) list \<Rightarrow> fl list list \<times> fl list \<times> (string \<rightharpoonup> nat)
     \<Rightarrow> fl list list \<times> fl list \<times> (string \<rightharpoonup> nat)" where
  "node_loop i [] acc = acc"
| "node_loop i ((node, dat) # rest) (node_features, node_labels, node_mapping) =
     node_loop (Suc i) rest
       (node_features @ [feature_row dat],
        node_labels @ [get_float dat ''daily_return''],
        node_mapping(node \<mapsto> i))"

text \<open>The second loop, over \<^verbatim>\<open>graph.edges()\<close>: \<^verbatim>\<open>node_mapping[src]\<close> is evaluated
  before \<^verbatim>\<open>node_mapping[dst]\<close>, and a missing key raises \<^verbatim>\<open>KeyError\<close>.\<close>

fun edge_loop ::
  "(string \<rightharpoonup> nat) \<Rightarrow> (string \<times> string) list \<Rightarrow> (nat \<times> nat) list
     \<Rightarrow> error + (nat \<times> nat) list" where
  "edge_loop node_mapping [] acc = Inr acc"
| "edge_loop node_mapping ((src, dst) # rest) acc =
     (case node_mapping src of
        None \<Rightarrow> Inl (KeyError src)
      | Some s \<Rightarrow>
          (case node_mapping dst of
             None \<Rightarrow> Inl (KeyError dst)
           | Some d \<Rightarrow> edge_loop node_mapping rest (acc @ [(s, d)])))"


definition nx_to_pyg_data :: "nx_graph \<Rightarrow> error + pyg_data" where
  "nx_to_pyg_data graph =
     (case node_loop 0 (g_nodes graph) ([], [], Map.empty) of
        (node_features, node_labels, node_mapping) \<Rightarrow>
          (case edge_loop node_mapping (g_edges graph) [] of
             Inl e \<Rightarrow> Inl e
           | Inr ei \<Rightarrow> Inr \<lparr>x = node_features, edge_index = ei, y = node_labels\<rparr>))"

subsection \<open>Label standardisation\<close>

text \<open>
  \<^verbatim>\<open>data.y = (data.y - data.y.mean()) / data.y.std()\<close>. The standard deviation of a
  tensor is the corrected one: the sum of squared deviations is divided by
  \<open>max 0 (n - 1)\<close>.
\<close>

definition torch_std :: "fl list \<Rightarrow> fl" where
  "torch_std ys =
     (let m = fmean ys
      in fsqrt (fdiv (fsum (map (\<lambda>v. fmul (fsub v m) (fsub v m)) ys))
                     (Fin (max 0 (real (length ys) - 1)))))"

definition standardize_labels :: "fl list \<Rightarrow> fl list" where
  "standardize_labels ys =
     (let m = fmean ys; s = torch_std ys
      in map (\<lambda>v. fdiv (fsub v m) s) ys)"

subsection \<open>Partitioner: \<^verbatim>\<open>split_data\<close>\<close>

text \<open>
  \<^verbatim>\<open>split_data\<close> calls the library function \<^verbatim>\<open>train_test_split\<close> twice, each time
  with \<^verbatim>\<open>random_state=42\<close>. The library draws \<^verbatim>\<open>RandomState(seed).permutation(n)\<close>;
  the generator is a parameter of the model, a function from the seed and the length to
  the permutation drawn. The ratios are Python floats, given as the real numbers they
  are, and every product, difference and quotient of floats is rounded by \<open>f64\<close>.

  The sizes are the library's. For a fractional \<^verbatim>\<open>test_size\<close>, which must lie strictly
  between 0 and 1, \<open>n_test = ceil (test_size * n)\<close> and \<open>n_train = n - n_test\<close>, and an
  empty train part is refused. The two sizes are then handed to \<^verbatim>\<open>ShuffleSplit\<close>, which
  validates them again as integers: each must be positive and below \<open>n\<close>. All refusals
  are a \<^verbatim>\<open>ValueError\<close>. The test part is the front of the permutation and the train part
  follows it.
\<close>

type_synonym rng = "nat \<Rightarrow> nat \<Rightarrow> nat list"

text \<open>Python's \<^verbatim>\<open>int\<close> on a float truncates towards zero; \<^verbatim>\<open>math.ceil\<close> rounds up. Both
  raise \<^verbatim>\<open>OverflowError\<close> on an infinity and \<^verbatim>\<open>ValueError\<close> on NaN.\<close>

definition py_int :: "fl \<Rightarrow> error + int" where
  "py_int a =
     (case a of
        Fin r \<Rightarrow> Inr (if 0 \<le> r then \<lfloor>r\<rfloor> else \<lceil>r\<rceil>)
      | NaN \<Rightarrow> Inl ValueError
      | _ \<Rightarrow> Inl OverflowError)"

definition py_ceil :: "fl \<Rightarrow> error + int" where
  "py_ceil a =
     (case a of
        Fin r \<Rightarrow> Inr \<lceil>r\<rceil>
      | NaN \<Rightarrow> Inl ValueError
      | _ \<Rightarrow> Inl OverflowError)"

text \<open>Indexing an array by an index array; an index out of range raises.\<close>

definition index_select :: "'a list \<Rightarrow> nat list \<Rightarrow> error + 'a list" where
  "index_select xs idx =
     (if list_all (\<lambda>i. i < length xs) idx then Inr (map (nth xs) idx) else Inl IndexError)"

text \<open>\<^verbatim>\<open>_validate_shuffle_split\<close> on a float \<^verbatim>\<open>test_size\<close>, with no \<^verbatim>\<open>train_size\<close>.\<close>

definition validate_shuffle_split :: "nat \<Rightarrow> fl \<Rightarrow> error + (int \<times> int)" where
  "validate_shuffle_split n_samples test_size =
     (case test_size of
        Fin t \<Rightarrow>
          if t \<le> 0 \<or> 1 \<le> t then Inl ValueError
          else
            (case py_ceil (f64 (t * real n_samples)) of
               Inl e \<Rightarrow> Inl e
             | Inr n_test \<Rightarrow>
                 let n_train = int n_samples - n_test
                 in if n_train = 0 then Inl ValueError else Inr (n_train, n_test))
      | _ \<Rightarrow> Inl ValueError)"

text \<open>\<^verbatim>\<open>_validate_shuffle_split\<close> on the two integer sizes, as \<^verbatim>\<open>ShuffleSplit\<close> calls it.\<close>

definition validate_sizes :: "nat \<Rightarrow> int \<Rightarrow> int \<Rightarrow> error + (nat \<times> nat)" where
  "validate_sizes n_samples n_train n_test =
     (if int n_samples \<le> n_test \<or> n_test \<le> 0 then Inl ValueError
      else if int n_samples \<le> n_train \<or> n_train \<le> 0 then Inl ValueError
      else if int n_samples < n_train + n_test then Inl ValueError
      else Inr (nat n_train, nat n_test))"

definition train_test_split ::
  "(nat \<Rightarrow> nat list) \<Rightarrow> nat list \<Rightarrow> fl \<Rightarrow> error + (nat list \<times> nat list)" where
  "train_test_split permutation arr test_size =
     (case validate_shuffle_split (length arr) test_size of
        Inl e \<Rightarrow> Inl e
      | Inr (n_train0, n_test0) \<Rightarrow>
          (case validate_sizes (length arr) n_train0 n_test0 of
             Inl e \<Rightarrow> Inl e
           | Inr (n_train, n_test) \<Rightarrow>
               let p = permutation (length arr);
                   ind_test = take n_test p;
                   ind_train = take n_train (drop n_test p)
               in (case index_select arr ind_train of
                     Inl e \<Rightarrow> Inl e
                   | Inr tr \<Rightarrow>
                       (case index_select arr ind_test of
                          Inl e \<Rightarrow> Inl e
                        | Inr te \<Rightarrow> Inr (tr, te)))))"

text \<open>
  \<^verbatim>\<open>split_data(data, train_ratio, val_ratio)\<close> reads \<^verbatim>\<open>data.num_nodes\<close> only, the number
  of rows of \<^verbatim>\<open>data.x\<close>. In the second call, \<^verbatim>\<open>int(val_ratio * len(indices))\<close> is
  evaluated first, the difference of the two integers is exact, and the true division of
  two integers, which raises on a zero divisor, is the rounded quotient.
\<close>

definition num_nodes :: "'a pyg_data_scheme \<Rightarrow> nat" where
  "num_nodes d = length (x d)"

definition split_data ::
  "rng \<Rightarrow> 'a pyg_data_scheme \<Rightarrow> real \<Rightarrow> real \<Rightarrow> error + (nat list \<times> nat list \<times> nat list)" where
  "split_data rand d train_ratio val_ratio =
     (let indices = [0..<num_nodes d]
      in case train_test_split (rand 42) indices (f64 (1 - train_ratio)) of
           Inl e \<Rightarrow> Inl e
         | Inr (train_idx, test_idx) \<Rightarrow>
             (case py_int (f64 (val_ratio * real (length indices))) of
                Inl e \<Rightarrow> Inl e
              | Inr k \<Rightarrow>
                  if length test_idx = 0 then Inl ZeroDivisionError
                  else
                    (case train_test_split (rand 42) test_idx
                            (f64 ((real (length test_idx) - real_of_int k)
                                  / real (length test_idx))) of
                       Inl e \<Rightarrow> Inl e
                     | Inr (val_idx, test_idx') \<Rightarrow> Inr (train_idx, val_idx, test_idx'))))"

text \<open>The data object after \<^verbatim>\<open>data.train_idx, data.val_idx, data.test_idx = split_data(data)\<close>.\<close>

record split_pyg_data = pyg_data +
  train_idx :: "nat list"
  val_idx :: "nat list"
  test_idx :: "nat list"

subsection \<open>Trainer: \<^verbatim>\<open>train_model\<close>\<close>

text \<open>
  The network, automatic differentiation and the optimiser are library code. They are
  the fields of a \<open>learner\<close>: \<open>'m\<close> is the state of the module (weights, batch-norm
  statistics), \<open>'g\<close> a gradient, \<open>'o\<close> the state of the optimiser with its scheduler.
  \<^item> \<open>forward\<close> is \<^verbatim>\<open>model(data.x, data.edge_index).squeeze()\<close> in the given mode;
  \<^item> \<open>backward\<close> is \<^verbatim>\<open>loss.backward()\<close>: the gradient, at the current module state, of
    the loss as a function of the module state;
  \<^item> \<open>opt_init\<close> is the construction of Adam and StepLR from the learning rate;
  \<^item> \<open>opt_step\<close> is \<^verbatim>\<open>optimizer.step()\<close> and \<open>sched_step\<close> is \<^verbatim>\<open>scheduler.step()\<close>.

  \<^verbatim>\<open>optimizer.zero_grad()\<close> clears the gradients at the start of a pass, so the gradient
  handed to the step is that of the loss of the pass. What the pass prints is kept as a
  list of lines.
\<close>

datatype mode = Training | Evaluation

record ('m, 'g, 'o) learner =
  forward :: "mode \<Rightarrow> 'm \<Rightarrow> fl list list \<Rightarrow> (nat \<times> nat) list \<Rightarrow> fl list"
  backward :: "('m \<Rightarrow> fl) \<Rightarrow> 'm \<Rightarrow> 'g"
  opt_init :: "real \<Rightarrow> 'm \<Rightarrow> 'o"
  opt_step :: "'o \<Rightarrow> 'g \<Rightarrow> 'm \<Rightarrow> 'm \<times> 'o"
  sched_step :: "'o \<Rightarrow> 'o"

text \<open>\<^verbatim>\<open>nn.MSELoss()\<close>: the mean of the squared differences.\<close>

definition mse_loss :: "fl list \<Rightarrow> fl list \<Rightarrow> fl" where
  "mse_loss a b = fmean (map2 (\<lambda>u v. fmul (fsub u v) (fsub u v)) a b)"

text \<open>\<^verbatim>\<open>criterion(output[idx], data.y[idx])\<close>\<close>

definition criterion_on :: "fl list \<Rightarrow> fl list \<Rightarrow> nat list \<Rightarrow> error + fl" where
  "criterion_on output target idx =
     (case index_select output idx of
        Inl e \<Rightarrow> Inl e
      | Inr a \<Rightarrow>
          (case index_select target idx of
             Inl e \<Rightarrow> Inl e
           | Inr b \<Rightarrow> Inr (mse_loss a b)))"

text \<open>The line printed at the end of an epoch.\<close>

record epoch_line =
  epoch_no :: nat
  epochs_total :: nat
  train_loss :: fl
  val_loss :: fl

text \<open>The module carries its mode; \<^verbatim>\<open>model.train()\<close> and \<^verbatim>\<open>model.eval()\<close> set it, a
  forward pass reads it.\<close>

record ('m, 'o) train_state =
  module_mode :: mode
  module_state :: "'m"
  optim_state :: "'o"

text \<open>The loss of the training rows as a function of the module state, which
  \<^verbatim>\<open>loss.backward()\<close> differentiates.\<close>

definition loss_fn :: "('m, 'g, 'o) learner \<Rightarrow> split_pyg_data \<Rightarrow> 'm \<Rightarrow> fl" where
  "loss_fn L d m =
     (case criterion_on (forward L Training m (x d) (edge_index d)) (y d) (train_idx d) of
        Inl e \<Rightarrow> NaN
      | Inr l \<Rightarrow> l)"

text \<open>One pass of the loop body.\<close>

definition train_epoch ::
  "('m, 'g, 'o) learner \<Rightarrow> split_pyg_data \<Rightarrow> nat \<Rightarrow> nat \<Rightarrow> ('m, 'o) train_state
     \<Rightarrow> error + (('m, 'o) train_state \<times> epoch_line)" where
  "train_epoch L d epochs epoch st =
     (let st1 = st\<lparr>module_mode := Training\<rparr>;
          output = forward L (module_mode st1) (module_state st1) (x d) (edge_index d)
      in case criterion_on output (y d) (train_idx d) of
           Inl e \<Rightarrow> Inl e
         | Inr loss \<Rightarrow>
             let g = backward L (loss_fn L d) (module_state st1);
                 (m', o') = opt_step L (optim_state st1) g (module_state st1);
                 st2 = st1\<lparr>module_state := m', optim_state := sched_step L o'\<rparr>;
                 st3 = st2\<lparr>module_mode := Evaluation\<rparr>
             in (case criterion_on output (y d) (val_idx d) of
                   Inl e \<Rightarrow> Inl e
                 | Inr vl \<Rightarrow>
                     Inr (st3, \<lparr>epoch_no = epoch + 1, epochs_total = epochs,
                               train_loss = loss, val_loss = vl\<rparr>)))"

text \<open>\<^verbatim>\<open>for epoch in range(epochs)\<close>, collecting the printed lines.\<close>

fun epoch_loop ::
  "('m, 'g, 'o) learner \<Rightarrow> split_pyg_data \<Rightarrow> nat \<Rightarrow> nat list \<Rightarrow> ('m, 'o) train_state
     \<Rightarrow> epoch_line list \<Rightarrow> error + (('m, 'o) train_state \<times> epoch_line list)" where
  "epoch_loop L d epochs [] st printed = Inr (st, printed)"
| "epoch_loop L d epochs (epoch # rest) st printed =
     (case train_epoch L d epochs epoch st of
        Inl e \<Rightarrow> Inl e
      | Inr (st', line) \<Rightarrow> epoch_loop L d epochs rest st' (printed @ [line]))"

text \<open>\<^verbatim>\<open>train_model(model, data, epochs, lr)\<close>; the module arrives in the mode it was
  left in.\<close>

definition train_model ::
  "('m, 'g, 'o) learner \<Rightarrow> mode \<times> 'm \<Rightarrow> split_pyg_data \<Rightarrow> nat \<Rightarrow> real
     \<Rightarrow> error + (('m, 'o) train_state \<times> epoch_line list)" where
  "train_model L model d epochs lr =
     epoch_loop L d epochs [0..<epochs]
       \<lparr>module_mode = fst model, module_state = snd model,
        optim_state = opt_init L lr (snd model)\<rparr> []"

subsection \<open>Evaluator: \<^verbatim>\<open>evaluate_model\<close>\<close>

text \<open>
  \<^verbatim>\<open>mean_absolute_error\<close> and \<^verbatim>\<open>mean_squared_error\<close> are the library's: they refuse
  an empty array and an array with a NaN or an infinity (\<^verbatim>\<open>ValueError\<close>), and average
  otherwise.
\<close>

definition check_arrays :: "fl list \<Rightarrow> fl list \<Rightarrow> bool" where
  "check_arrays y_true y_pred =
     (y_true \<noteq> [] \<and> y_pred \<noteq> [] \<and> length y_true = length y_pred
      \<and> list_all is_finite y_true \<and> list_all is_finite y_pred)"

definition mean_absolute_error :: "fl list \<Rightarrow> fl list \<Rightarrow> error + fl" where
  "mean_absolute_error y_true y_pred =
     (if check_arrays y_true y_pred
      then Inr (fmean (map2 (\<lambda>t p. fabs (fsub p t)) y_true y_pred))
      else Inl ValueError)"

definition mean_squared_error :: "fl list \<Rightarrow> fl list \<Rightarrow> error + fl" where
  "mean_squared_error y_true y_pred =
     (if check_arrays y_true y_pred
      then Inr (fmean (map2 (\<lambda>t p. fmul (fsub t p) (fsub t p)) y_true y_pred))
      else Inl ValueError)"

text \<open>\<^verbatim>\<open>np.mean\<close> of a boolean array.\<close>

definition mean_bool :: "bool list \<Rightarrow> fl" where
  "mean_bool bs = fmean (map (\<lambda>b. Fin (if b then 1 else 0)) bs)"

text \<open>\<^verbatim>\<open>np.std\<close>: the square root of the mean of the squared deviations.\<close>

definition np_std :: "fl list \<Rightarrow> fl" where
  "np_std xs =
     (let m = fmean xs
      in fsqrt (fmean (map (\<lambda>v. fmul (fabs (fsub v m)) (fabs (fsub v m))) xs)))"

text \<open>
  \<^verbatim>\<open>np.corrcoef(a, b)[0, 1]\<close>, computed in binary64. The covariance matrix is the matrix
  of the products of the deviations from the means, multiplied by \<open>1 / max 0 (n - 1)\<close>;
  each entry is divided by the square roots of the two diagonal entries and clipped to
  \<open>[-1, 1]\<close>. Every operation rounds; the sums are taken in the order of the array.
\<close>

definition np_cov :: "fl list \<Rightarrow> fl list \<Rightarrow> fl" where
  "np_cov a b =
     (let ma = rmean a; mb = rmean b
      in rmul (rsum (map2 (\<lambda>u v. rmul (rsub u ma) (rsub v mb)) a b))
              (rdiv (Fin 1) (Fin (max 0 (real (length a) - 1)))))"

fun np_clip :: "real \<Rightarrow> real \<Rightarrow> fl \<Rightarrow> fl" where
  "np_clip lo hi (Fin a) = Fin (min hi (max lo a))"
| "np_clip lo hi PInf = Fin hi"
| "np_clip lo hi NInf = Fin lo"
| "np_clip lo hi NaN = NaN"

definition np_corrcoef01 :: "fl list \<Rightarrow> fl list \<Rightarrow> fl" where
  "np_corrcoef01 a b =
     np_clip (- 1) 1 (rdiv (rdiv (np_cov a b) (rsqrt (np_cov a a))) (rsqrt (np_cov b b)))"

record metrics =
  MAE :: fl
  RMSE :: fl
  MAPE :: fl
  Directional_Accuracy :: fl
  Sharpe_Ratio :: fl
  Information_Coefficient :: fl
  Hit_Rate :: fl

text \<open>
  The metrics of the test rows: \<open>pt\<close> is \<^verbatim>\<open>predictions[data.test_idx]\<close> and \<open>tt\<close> is
  \<^verbatim>\<open>true_values[data.test_idx]\<close>.
\<close>

definition directional_accuracy :: "fl list \<Rightarrow> fl list \<Rightarrow> fl" where
  "directional_accuracy pt tt =
     mean_bool (map2 (\<lambda>dp dt. feq (np_sign dp) (np_sign dt))
                  (map2 fsub (tl pt) (butlast pt))
                  (map2 fsub (tl tt) (butlast tt)))"

definition sharpe_ratio :: "fl list \<Rightarrow> fl list \<Rightarrow> fl" where
  "sharpe_ratio pt tt =
     (let returns = map2 fsub pt tt
      in if \<not> feq (np_std returns) (Fin 0) then fdiv (fmean returns) (np_std returns)
         else Fin 0)"

definition test_metrics :: "fl list \<Rightarrow> fl list \<Rightarrow> error + metrics" where
  "test_metrics pt tt =
     (case mean_absolute_error tt pt of
        Inl e \<Rightarrow> Inl e
      | Inr mae \<Rightarrow>
          (case mean_squared_error tt pt of
             Inl e \<Rightarrow> Inl e
           | Inr mse \<Rightarrow>
               Inr \<lparr>MAE = mae,
                    RMSE = fsqrt mse,
                    MAPE = fmul (fmean (map2 (\<lambda>t p. fabs (fdiv (fsub t p) t)) tt pt)) (Fin 100),
                    Directional_Accuracy = fmul (directional_accuracy pt tt) (Fin 100),
                    Sharpe_Ratio = sharpe_ratio pt tt,
                    Information_Coefficient = np_corrcoef01 pt tt,
                    Hit_Rate =
                      fmul (mean_bool (map2 (\<lambda>p t. feq (np_sign p) (np_sign t)) pt tt))
                           (Fin 100)\<rparr>))"

text \<open>
  \<^verbatim>\<open>true_values[data.test_idx]\<close> and \<^verbatim>\<open>predictions[data.test_idx]\<close> index a numpy array
  by a torch index tensor. A tensor of one element converts to an integer, and numpy
  then returns the element itself, a scalar; a tensor of any other length is an index
  array and selects an array. An index out of range raises.
\<close>

datatype 'a selection = Scalar 'a | Array "'a list"

definition tensor_index :: "'a list \<Rightarrow> nat list \<Rightarrow> error + 'a selection" where
  "tensor_index xs idx =
     (if \<not> list_all (\<lambda>i. i < length xs) idx then Inl IndexError
      else case idx of
             [i] \<Rightarrow> Inr (Scalar (xs ! i))
           | _ \<Rightarrow> Inr (Array (map (nth xs) idx)))"

text \<open>
  \<^verbatim>\<open>evaluate_model(model, data)\<close>: a forward pass in evaluation mode, then the metrics
  of the test rows. \<^verbatim>\<open>mean_absolute_error\<close>, the first metric, refuses a scalar
  argument as not being an array (a \<^verbatim>\<open>TypeError\<close>).
\<close>

definition evaluate_model ::
  "('m, 'g, 'o) learner \<Rightarrow> 'm \<Rightarrow> split_pyg_data \<Rightarrow> error + metrics" where
  "evaluate_model L m d =
     (let predictions = forward L Evaluation m (x d) (edge_index d);
          true_values = y d
      in case tensor_index true_values (test_idx d) of
           Inl e \<Rightarrow> Inl e
         | Inr tsel \<Rightarrow>
             (case tensor_index predictions (test_idx d) of
                Inl e \<Rightarrow> Inl e
              | Inr psel \<Rightarrow>
                  (case (tsel, psel) of
                     (Array tt, Array pt) \<Rightarrow> test_metrics pt tt
                   | _ \<Rightarrow> Inl TypeError)))"

subsection \<open>A small learner\<close>

text \<open>
  A learner to run the trainer and the evaluator on: one weight \<open>w\<close>, the prediction of a
  row is \<open>w\<close> times its first feature, the gradient is the central difference of the loss
  (exact for a quadratic loss), and a step is plain gradient descent with the learning
  rate as the optimiser's state.
\<close>

definition linear_forward :: "mode \<Rightarrow> real \<Rightarrow> fl list list \<Rightarrow> (nat \<times> nat) list \<Rightarrow> fl list" where
  "linear_forward md w xs ei = map (\<lambda>row. fmul (Fin w) (case row of [] \<Rightarrow> Fin 0 | v # _ \<Rightarrow> v)) xs"

definition central_difference :: "(real \<Rightarrow> fl) \<Rightarrow> real \<Rightarrow> fl" where
  "central_difference f w = fdiv (fsub (f (w + 1)) (f (w - 1))) (Fin 2)"

definition descent_step :: "real \<Rightarrow> fl \<Rightarrow> real \<Rightarrow> real \<times> real" where
  "descent_step lr g w = (case g of Fin gv \<Rightarrow> (w - lr * gv, lr) | _ \<Rightarrow> (w, lr))"

definition linear_learner :: "(real, fl, real) learner" where
  "linear_learner =
     \<lparr>forward = linear_forward,
      backward = central_difference,
      opt_init = (\<lambda>lr w. lr),
      opt_step = descent_step,
      sched_step = (\<lambda>lr. lr)\<rparr>"

text \<open>Three nodes with first features 1, 2, 3 and labels 2, 4, 7; row 0 trains, row 2
  validates, row 1 tests.\<close>

definition example_data :: split_pyg_data where
  "example_data =
     \<lparr>x = [ [Fin 1], [Fin 2], [Fin 3] ], edge_index = [(0, 1), (1, 2)],
      y = [Fin 2, Fin 4, Fin 7],
      train_idx = [0], val_idx = [2], test_idx = [1]\<rparr>"

text \<open>Generators for running the partitioner: the identity permutation, and the reversed
  one.\<close>

definition rng_identity :: rng where
  "rng_identity seed n = [0..<n]"

definition rng_reverse :: rng where
  "rng_reverse seed n = rev [0..<n]"

subsection \<open>Inputs to run the functions on\<close>

text \<open>A graph of three nodes, and a graph with an edge to a node that is not one of its
  nodes.\<close>

definition example_graph :: nx_graph where
  "example_graph =
     \<lparr>g_nodes = [(''A'', [''daily_return'' \<mapsto> 2, ''momentum'' \<mapsto> 5]),
                (''B'', [''daily_return'' \<mapsto> - 1, ''volatility'' \<mapsto> 3]),
                (''C'', Map.empty)],
      g_edges = [(''A'', ''B''), (''B'', ''C'')]\<rparr>"


text \<open>A data object of \<open>n\<close> nodes, for the partitioner, which reads the number of nodes
  only.\<close>

definition data_of_size :: "nat \<Rightarrow> pyg_data" where
  "data_of_size n = \<lparr>x = replicate n [], edge_index = [], y = replicate n (Fin 0)\<rparr>"

text \<open>What the library promises of \<^verbatim>\<open>permutation(m)\<close>: each of \<open>0, \<dots>, m - 1\<close> once.\<close>

definition shuffles :: "(nat \<Rightarrow> nat list) \<Rightarrow> bool" where
  "shuffles P = (\<forall>m. distinct (P m) \<and> set (P m) = {0..<m})"

text \<open>A generator that is the identity permutation on seed 42 and the reversed one on
  every other seed.\<close>

definition rng_by_seed :: rng where
  "rng_by_seed seed n = (if seed = 42 then [0..<n] else rev [0..<n])"

text \<open>Four nodes whose labels are twice their first feature; rows 1 and 3 are the test
  rows.\<close>

definition doubled_data :: split_pyg_data where
  "doubled_data =
     \<lparr>x = [ [Fin 1], [Fin 2], [Fin 3], [Fin 4] ], edge_index = [(0, 1), (1, 2), (2, 3)],
      y = [Fin 2, Fin 4, Fin 6, Fin 8],
      train_idx = [0], val_idx = [2], test_idx = [1, 3]\<rparr>"

text \<open>Three nodes with the same label 2 and first feature 1; rows 0 and 2 are the test
  rows.\<close>

definition flat_data :: split_pyg_data where
  "flat_data =
     \<lparr>x = [ [Fin 1], [Fin 1], [Fin 1] ], edge_index = [(0, 1), (1, 2)],
      y = [Fin 2, Fin 2, Fin 2],
      train_idx = [1], val_idx = [1], test_idx = [0, 2]\<rparr>"

section \<open>Rounding\<close>

lemma bits_pos: "0 < n \<Longrightarrow> 0 < bits n"
  by (subst bits.simps) simp

lemma bits_bounds: "0 < n \<Longrightarrow> 2 ^ (bits n - 1) \<le> n \<and> n < 2 ^ bits n"
proof (induction n rule: bits.induct)
  case (1 n)
  show ?case
  proof (cases "n = 1")
    case True
    have "bits 1 = 1" by (subst bits.simps, simp, subst bits.simps, simp)
    with True show ?thesis by simp
  next
    case False
    with "1.prems" have m: "0 < n div 2" by simp
    have nle: "\<not> n \<le> 0" using "1.prems" by simp
    from "1.IH"[OF nle m] have lo: "2 ^ (bits (n div 2) - 1) \<le> n div 2"
      and hi: "n div 2 < 2 ^ bits (n div 2)" by simp_all
    have b: "bits n = Suc (bits (n div 2))" using nle by (subst bits.simps) simp
    have bp: "0 < bits (n div 2)" by (rule bits_pos[OF m])
    then have "(2::int) ^ bits (n div 2) = 2 * 2 ^ (bits (n div 2) - 1)"
      by (cases "bits (n div 2)") simp_all
    with lo have "(2::int) ^ bits (n div 2) \<le> 2 * (n div 2)" by simp
    also have "\<dots> \<le> n" by simp
    finally have l: "2 ^ (bits n - 1) \<le> n" using b by simp
    have "n < 2 * (n div 2) + 2" by linarith
    also have "\<dots> \<le> 2 * 2 ^ bits (n div 2)" using hi by simp
    finally have "n < 2 ^ bits n" using b by simp
    with l show ?thesis by simp
  qed
qed

lemma ilog2_bounds:
  assumes "0 < a"
  shows "2 powi ilog2 a \<le> a" "a < 2 powi (ilog2 a + 1)"
proof -
  show "2 powi ilog2 a \<le> a"
  proof (cases "1 \<le> a")
    case True
    then have n: "0 < \<lfloor>a\<rfloor>" by simp
    have bp: "0 < bits \<lfloor>a\<rfloor>" by (rule bits_pos[OF n])
    from bits_bounds[OF n] have "(2::int) ^ (bits \<lfloor>a\<rfloor> - 1) \<le> \<lfloor>a\<rfloor>" by simp
    then have "real_of_int (2 ^ (bits \<lfloor>a\<rfloor> - 1)) \<le> real_of_int \<lfloor>a\<rfloor>" by (simp only: of_int_le_iff)
    also have "\<dots> \<le> a" by simp
    finally have "(2::real) ^ (bits \<lfloor>a\<rfloor> - 1) \<le> a" by simp
    moreover have "ilog2 a = int (bits \<lfloor>a\<rfloor> - 1)" using True bp by (simp add: ilog2_def)
    ultimately show ?thesis by simp
  next
    case False
    let ?t = "1 / a"
    let ?k = "bits (\<lceil>?t\<rceil> - 1)"
    have t1: "1 < ?t" using False assms by simp
    then have n: "0 < \<lceil>?t\<rceil> - 1" by linarith
    from bits_bounds[OF n] have "\<lceil>?t\<rceil> - 1 < 2 ^ ?k" by simp
    then have "\<lceil>?t\<rceil> \<le> 2 ^ ?k" by simp
    then have "?t \<le> real_of_int (2 ^ ?k)" unfolding ceiling_le_iff .
    then have "?t \<le> 2 ^ ?k" by simp
    then have "1 \<le> 2 ^ ?k * a" using assms by (simp add: field_simps)
    then have "1 / 2 ^ ?k \<le> a" by (simp add: field_simps)
    moreover have "ilog2 a = - int ?k" using False by (simp add: ilog2_def)
    ultimately show ?thesis by (simp add: power_int_minus field_simps)
  qed
  show "a < 2 powi (ilog2 a + 1)"
  proof (cases "1 \<le> a")
    case True
    then have n: "0 < \<lfloor>a\<rfloor>" by simp
    have bp: "0 < bits \<lfloor>a\<rfloor>" by (rule bits_pos[OF n])
    from bits_bounds[OF n] have "\<lfloor>a\<rfloor> < 2 ^ bits \<lfloor>a\<rfloor>" by simp
    then have "\<lfloor>a\<rfloor> + 1 \<le> 2 ^ bits \<lfloor>a\<rfloor>" by simp
    then have "real_of_int (\<lfloor>a\<rfloor> + 1) \<le> real_of_int (2 ^ bits \<lfloor>a\<rfloor>)" by (simp only: of_int_le_iff)
    then have "real_of_int \<lfloor>a\<rfloor> + 1 \<le> 2 ^ bits \<lfloor>a\<rfloor>" by simp
    moreover have "a < real_of_int \<lfloor>a\<rfloor> + 1" by linarith
    ultimately have "a < 2 ^ bits \<lfloor>a\<rfloor>" by linarith
    moreover have "ilog2 a + 1 = int (bits \<lfloor>a\<rfloor>)" using True by (simp add: ilog2_def)
    ultimately show ?thesis by simp
  next
    case False
    let ?t = "1 / a"
    let ?k = "bits (\<lceil>?t\<rceil> - 1)"
    have t1: "1 < ?t" using False assms by simp
    then have n: "0 < \<lceil>?t\<rceil> - 1" by linarith
    have kp: "0 < ?k" by (rule bits_pos[OF n])
    from bits_bounds[OF n] have "2 ^ (?k - 1) \<le> \<lceil>?t\<rceil> - 1" by simp
    then have "real_of_int (2 ^ (?k - 1)) \<le> real_of_int (\<lceil>?t\<rceil> - 1)" by (simp only: of_int_le_iff)
    then have "2 ^ (?k - 1) \<le> real_of_int \<lceil>?t\<rceil> - 1" by simp
    moreover have "real_of_int \<lceil>?t\<rceil> - 1 < ?t" by linarith
    ultimately have "2 ^ (?k - 1) < ?t" by linarith
    then have "2 ^ (?k - 1) * a < 1" using assms by (simp add: field_simps)
    then have "a < 1 / 2 ^ (?k - 1)" by (simp add: field_simps)
    moreover have "ilog2 a + 1 = - int (?k - 1)" using False kp by (simp add: ilog2_def)
    ultimately show ?thesis by (simp add: power_int_minus field_simps)
  qed
qed

lemma round_half_even_error: "\<bar>real_of_int (round_half_even m) - m\<bar> \<le> 1 / 2"
  unfolding round_half_even_def Let_def by (auto; linarith)

lemma round_half_even_nonneg: "0 \<le> m \<Longrightarrow> 0 \<le> round_half_even m"
  unfolding round_half_even_def Let_def by (auto; linarith)

lemma round_half_even_le: "m \<le> real_of_int k \<Longrightarrow> round_half_even m \<le> k"
  unfolding round_half_even_def Let_def by (auto simp: floor_le_iff; linarith)

lemma round_half_even_ge: "real_of_int k \<le> m \<Longrightarrow> k \<le> round_half_even m"
  unfolding round_half_even_def Let_def by (auto simp: le_floor_iff; linarith)

lemma pow2_less_exp:
  assumes "(2::real) powi m < 2 powi n"
  shows "m < n"
proof (rule ccontr)
  assume "\<not> m < n"
  then have "n \<le> m" by simp
  then have "(2::real) powi n \<le> 2 powi m" by (rule power_int_increasing) simp
  with assms show False by simp
qed

lemma f64_zero: "f64 0 = Fin 0"
  by (simp add: f64_def)

lemma f64_nonpos:
  assumes "v \<le> 0"
  shows "f64 v = NInf \<or> (\<exists>c\<le>0. f64 v = Fin c)"
proof (cases "v = 0")
  case True
  then show ?thesis by (simp add: f64_zero)
next
  case False
  with assms have neg: "v < 0" by simp
  let ?q = "max (ilog2 \<bar>v\<bar> - 52) (- 1074)"
  have "0 \<le> \<bar>v\<bar> / 2 powi ?q" by simp
  then have "0 \<le> round_half_even (\<bar>v\<bar> / 2 powi ?q)" by (rule round_half_even_nonneg)
  then have "0 \<le> real_of_int (round_half_even (\<bar>v\<bar> / 2 powi ?q)) * 2 powi ?q" by simp
  then show ?thesis using neg False by (auto simp: f64_def Let_def)
qed

lemma f64_nonneg:
  assumes "0 \<le> v"
  shows "f64 v = PInf \<or> (\<exists>c\<ge>0. f64 v = Fin c)"
proof (cases "v = 0")
  case True
  then show ?thesis by (simp add: f64_zero)
next
  case False
  with assms have pos: "0 < v" by simp
  let ?q = "max (ilog2 \<bar>v\<bar> - 52) (- 1074)"
  have "0 \<le> \<bar>v\<bar> / 2 powi ?q" by simp
  then have "0 \<le> round_half_even (\<bar>v\<bar> / 2 powi ?q)" by (rule round_half_even_nonneg)
  then have "0 \<le> real_of_int (round_half_even (\<bar>v\<bar> / 2 powi ?q)) * 2 powi ?q" by simp
  then show ?thesis using pos False by (auto simp: f64_def Let_def)
qed

text \<open>In the range of the normal numbers the result is finite and the relative error is
  at most \<open>2 ^ -53\<close>.\<close>

lemma f64_normal:
  assumes lo: "2 powi (- 1022) \<le> a" and hi: "a < 2 powi 1023"
  shows "\<exists>c. f64 a = Fin c \<and> \<bar>c - a\<bar> \<le> a / 2 ^ 53"
proof -
  have "(0::real) < 2 powi (- 1022)" by simp
  with lo have pos: "0 < a" by linarith
  let ?e = "ilog2 a"
  note b = ilog2_bounds[OF pos]
  have "(2::real) powi ?e < 2 powi 1023" using b(1) hi by linarith
  then have e_hi: "?e < 1023" by (rule pow2_less_exp)
  have "(2::real) powi (- 1022) < 2 powi (?e + 1)" using b(2) lo by linarith
  then have e_lo: "- 1022 < ?e + 1" by (rule pow2_less_exp)
  let ?q = "?e - 52"
  have q: "max (?e - 52) (- 1074) = ?q" using e_lo by simp
  let ?r = "round_half_even (a / 2 powi ?q)"
  let ?c = "real_of_int ?r * 2 powi ?q"
  have qpos: "(0::real) < 2 powi ?q" by simp
  have val: "f64 a = Fin ?c" using pos e_hi q by (simp add: f64_def Let_def)
  have "\<bar>real_of_int ?r - a / 2 powi ?q\<bar> \<le> 1 / 2" by (rule round_half_even_error)
  then have "\<bar>real_of_int ?r - a / 2 powi ?q\<bar> * 2 powi ?q \<le> 1 / 2 * 2 powi ?q"
    using qpos by (simp add: mult_right_mono)
  moreover have "\<bar>real_of_int ?r - a / 2 powi ?q\<bar> * 2 powi ?q = \<bar>?c - a\<bar>"
  proof -
    have "\<bar>real_of_int ?r - a / 2 powi ?q\<bar> * 2 powi ?q
            = \<bar>(real_of_int ?r - a / 2 powi ?q) * 2 powi ?q\<bar>"
      using qpos by (simp add: abs_mult)
    also have "(real_of_int ?r - a / 2 powi ?q) * 2 powi ?q = ?c - a"
      using qpos by (simp add: field_simps)
    finally show ?thesis .
  qed
  ultimately have err: "\<bar>?c - a\<bar> \<le> 1 / 2 * 2 powi ?q" by simp
  have "(2::real) powi ?q = 2 powi ?e / 2 powi 52" by (rule power_int_diff) simp
  also have "\<dots> \<le> a / 2 powi 52" using b(1) by (simp add: divide_right_mono)
  finally have "1 / 2 * 2 powi ?q \<le> 1 / 2 * (a / 2 powi 52)" by simp
  also have "\<dots> = a / 2 ^ 53" by simp
  finally have "\<bar>?c - a\<bar> \<le> a / 2 ^ 53" using err by linarith
  with val show ?thesis by blast
qed

lemma f64_unfold:
  assumes "v \<noteq> 0" "e = ilog2 \<bar>v\<bar>" "q = max (e - 52) (- 1074)"
      and "r = round_half_even (\<bar>v\<bar> / 2 powi q)"
  shows "f64 v = (if 1024 \<le> e \<or> (e = 1023 \<and> 2 ^ 53 \<le> r) then (if v < 0 then NInf else PInf)
                  else Fin ((if v < 0 then - 1 else 1) * (real_of_int r * 2 powi q)))"
  using assms by (simp only: f64_def Let_def if_False)

text \<open>A positive finite result is at least the least subnormal number and below
  \<open>2 ^ 1024\<close>.\<close>

lemma f64_pos_range:
  assumes v: "f64 v = Fin c" and c: "0 < c"
  shows "2 powi (- 1074) \<le> c" "c < 2 powi 1024"
proof -
  have v0: "v \<noteq> 0" using v c by (auto simp: f64_zero)
  have vp: "0 < v"
  proof (rule ccontr)
    assume "\<not> 0 < v"
    then have "v \<le> 0" by simp
    from f64_nonpos[OF this] v c show False by auto
  qed
  define e where "e = ilog2 \<bar>v\<bar>"
  define q where "q = max (e - 52) (- 1074)"
  define r where "r = round_half_even (\<bar>v\<bar> / 2 powi q)"
  note u = f64_unfold[OF v0 e_def q_def r_def]
  have noover: "\<not> (1024 \<le> e \<or> (e = 1023 \<and> 2 ^ 53 \<le> r))"
  proof
    assume "1024 \<le> e \<or> (e = 1023 \<and> 2 ^ 53 \<le> r)"
    with u have "f64 v = (if v < 0 then NInf else PInf)" by (simp only: if_True)
    with v show False by (simp split: if_splits)
  qed
  with u have "f64 v = Fin ((if v < 0 then - 1 else 1) * (real_of_int r * 2 powi q))"
    by (simp only: if_False)
  with v vp have cv: "c = real_of_int r * 2 powi q" by simp
  have qpos: "(0::real) < 2 powi q" by simp
  have "0 < real_of_int r" using c cv qpos by (simp add: zero_less_mult_iff)
  then have r1: "1 \<le> r" by simp
  have qlo: "- 1074 \<le> q" by (simp add: q_def)
  have "(2::real) powi (- 1074) \<le> 2 powi q" using qlo by (rule power_int_increasing) simp
  also have "\<dots> = 1 * 2 powi q" by simp
  also have "\<dots> \<le> real_of_int r * 2 powi q"
    using r1 qpos by (intro mult_right_mono) simp_all
  finally show "2 powi (- 1074) \<le> c" using cv by simp
  have ap: "0 < \<bar>v\<bar>" using v0 by simp
  have b: "\<bar>v\<bar> < 2 powi (e + 1)" unfolding e_def by (rule ilog2_bounds(2)[OF ap])
  have p53: "real_of_int (2 ^ 53) = 2 powi 53" by simp
  show "c < 2 powi 1024"
  proof (cases "e = 1023")
    case True
    with noover have "r < 2 ^ 53" by simp
    then have "real_of_int r < real_of_int (2 ^ 53)" by (simp only: of_int_less_iff)
    then have "real_of_int r < 2 powi 53" by (simp only: p53)
    moreover have q971: "q = 971" using True by (simp add: q_def)
    ultimately have "c < 2 powi 53 * 2 powi q" using cv qpos by (simp only: mult_strict_right_mono)
    also have "\<dots> = 2 powi (53 + q)" by (rule power_int_add[symmetric]) simp
    also have "53 + q = 1024" using q971 by simp
    finally show ?thesis .
  next
    case False
    with noover have e: "e \<le> 1022" by simp
    have "\<bar>v\<bar> / 2 powi q \<le> 2 powi (e + 1) / 2 powi q"
      using b qpos by (simp add: divide_right_mono)
    also have "\<dots> = 2 powi (e + 1 - q)" by (rule power_int_diff[symmetric]) simp
    also have "\<dots> \<le> 2 powi 53"
    proof (rule power_int_increasing)
      show "e + 1 - q \<le> 53" by (simp add: q_def)
    qed simp
    finally have "\<bar>v\<bar> / 2 powi q \<le> real_of_int (2 ^ 53)" by (simp only: p53)
    then have "r \<le> 2 ^ 53" unfolding r_def by (rule round_half_even_le)
    then have "real_of_int r \<le> real_of_int (2 ^ 53)" by (simp only: of_int_le_iff)
    then have "real_of_int r \<le> 2 powi 53" by (simp only: p53)
    then have "c \<le> 2 powi 53 * 2 powi q" using cv qpos by (simp only: mult_right_mono)
    also have "\<dots> = 2 powi (53 + q)" by (rule power_int_add[symmetric]) simp
    also have "\<dots> < 2 powi 1024"
    proof (rule power_int_strict_increasing)
      have "q \<le> 970 \<or> q = - 1074" using e by (auto simp: q_def max_def)
      then show "53 + q < 1024" by auto
    qed simp
    finally show ?thesis .
  qed
qed

section \<open>Encoding\<close>

lemma node_loop_features:
  "fst (node_loop i ns (F, Lb, M)) = F @ map (\<lambda>nd. feature_row (snd nd)) ns"
  by (induction ns arbitrary: i F Lb M) auto

lemma node_loop_labels:
  "fst (snd (node_loop i ns (F, Lb, M))) = Lb @ map (\<lambda>nd. get_float (snd nd) ''daily_return'') ns"
  by (induction ns arbitrary: i F Lb M) auto





lemma edge_loop_fail:
  "\<exists>e\<in>set es. fst e \<notin> dom m \<or> snd e \<notin> dom m \<Longrightarrow>
     \<exists>k. edge_loop m es acc = Inl (KeyError k) \<and> k \<notin> dom m"
proof (induction es arbitrary: acc)
  case Nil
  then show ?case by simp
next
  case (Cons e es)
  obtain s d where e: "e = (s, d)" by (cases e)
  show ?case
  proof (cases "s \<in> dom m \<and> d \<in> dom m")
    case True
    with Cons.prems e have "\<exists>e\<in>set es. fst e \<notin> dom m \<or> snd e \<notin> dom m" by auto
    from Cons.IH[OF this] True e show ?thesis by (auto split: option.splits)
  next
    case False
    with e show ?thesis by (auto split: option.splits)
  qed
qed

lemma nx_to_pyg_data_Inr:
  assumes "nx_to_pyg_data graph = Inr d"
  shows "x d = map (\<lambda>nd. feature_row (snd nd)) (g_nodes graph)"
    and "y d = map (\<lambda>nd. get_float (snd nd) ''daily_return'') (g_nodes graph)"
proof -
  obtain F Lb M where nl: "node_loop 0 (g_nodes graph) ([], [], Map.empty) = (F, Lb, M)"
    by (cases "node_loop 0 (g_nodes graph) ([], [], Map.empty)")
  have F: "F = map (\<lambda>nd. feature_row (snd nd)) (g_nodes graph)"
    using node_loop_features[of 0 "g_nodes graph" "[]" "[]" Map.empty] nl by simp
  have Lb: "Lb = map (\<lambda>nd. get_float (snd nd) ''daily_return'') (g_nodes graph)"
    using node_loop_labels[of 0 "g_nodes graph" "[]" "[]" Map.empty] nl by simp
  from assms nl have "x d = F \<and> y d = Lb"
    by (auto simp: nx_to_pyg_data_def split: sum.splits)
  with F Lb show "x d = map (\<lambda>nd. feature_row (snd nd)) (g_nodes graph)"
    and "y d = map (\<lambda>nd. get_float (snd nd) ''daily_return'') (g_nodes graph)" by simp_all
qed

text \<open>
  Claim C9. Whenever the encoding returns, the label vector is column 1 (the
  \<^verbatim>\<open>daily_return\<close> column) of the feature matrix, row for row, and every row has the
  five features: the target is also an input feature.
\<close>

theorem labels_are_feature_column_1:
  "nx_to_pyg_data graph = Inr d \<Longrightarrow>
     y d = map (\<lambda>row. row ! 1) (x d) \<and> (\<forall>row\<in>set (x d). length row = 5)"
  by (simp add: nx_to_pyg_data_Inr feature_row_def)

theorem labels_are_feature_column_1_witness:
  "nx_to_pyg_data example_graph =
     Inr \<lparr>x = [ [Fin 0, Fin 2, Fin 0, Fin 0, Fin 5],
               [Fin 0, Fin (- 1), Fin 0, Fin 3, Fin 0],
               [Fin 0, Fin 0, Fin 0, Fin 0, Fin 0] ],
          edge_index = [(0, 1), (1, 2)],
          y = [Fin 2, Fin (- 1), Fin 0]\<rparr>
   \<and> [Fin 2, Fin (- 1), Fin 0]
       = map (\<lambda>row. row ! 1) [ [Fin 0, Fin 2, Fin 0, Fin 0, Fin 5],
               [Fin 0, Fin (- 1), Fin 0, Fin 3, Fin 0],
               [Fin 0, Fin 0, Fin 0, Fin 0, Fin 0 :: fl] ]"
proof -
  have run: "nx_to_pyg_data example_graph =
     Inr \<lparr>x = [ [Fin 0, Fin 2, Fin 0, Fin 0, Fin 5],
               [Fin 0, Fin (- 1), Fin 0, Fin 3, Fin 0],
               [Fin 0, Fin 0, Fin 0, Fin 0, Fin 0] ],
          edge_index = [(0, 1), (1, 2)],
          y = [Fin 2, Fin (- 1), Fin 0]\<rparr>"
    by (simp add: nx_to_pyg_data_def example_graph_def feature_row_def get_float_def)
  from labels_are_feature_column_1[OF run] run show ?thesis by simp
qed




section \<open>Partitioner\<close>

lemma shuffles_length: "shuffles P \<Longrightarrow> length (P m) = m"
  unfolding shuffles_def by (metis card_atLeastLessThan diff_zero distinct_card)

lemma index_select_in_range:
  "set idx \<subseteq> {0..<length xs} \<Longrightarrow> index_select xs idx = Inr (map (nth xs) idx)"
  by (auto simp: index_select_def list_all_iff)

lemma validate_shuffle_split_sum:
  "validate_shuffle_split n ts = Inr (a, b) \<Longrightarrow> a + b = int n"
  by (auto simp: validate_shuffle_split_def Let_def split: fl.splits if_splits sum.splits)

lemma validate_sizes_Inr:
  "validate_sizes n a b = Inr (n_train, n_test) \<Longrightarrow>
     int n_train = a \<and> int n_test = b \<and> 0 < n_train \<and> 0 < n_test"
  by (auto simp: validate_sizes_def split: if_splits)

lemma validate_shuffle_split_nonpos:
  assumes "ts = NInf \<or> (\<exists>c\<le>0. ts = Fin c)"
  shows "validate_shuffle_split n ts = Inl ValueError"
  using assms by (auto simp: validate_shuffle_split_def)

lemma map_nth_shuffle:
  assumes "distinct p" "set p = {0..<length arr}" "distinct arr"
  shows "distinct (map (nth arr) p)" "set (map (nth arr) p) = set arr"
proof -
  have "inj_on (nth arr) {0..<length arr}"
    using assms(3) by (auto simp: inj_on_def nth_eq_iff_index_eq)
  with assms show "distinct (map (nth arr) p)" by (simp add: distinct_map)
  have "nth arr ` {0..<length arr} = set arr" using nth_image[of "length arr" arr] by simp
  with assms show "set (map (nth arr) p) = set arr" by simp
qed

lemma train_test_split_Inr:
  assumes P: "shuffles P" and r: "train_test_split P arr ts = Inr (tr, te)" and d: "distinct arr"
  shows "distinct (tr @ te)" "set tr \<union> set te = set arr"
        "length tr + length te = length arr" "0 < length tr" "0 < length te"
proof -
  let ?p = "P (length arr)"
  obtain a b where v: "validate_shuffle_split (length arr) ts = Inr (a, b)"
    using r by (auto simp: train_test_split_def split: sum.splits)
  obtain n_train n_test where s: "validate_sizes (length arr) a b = Inr (n_train, n_test)"
    using r v by (auto simp: train_test_split_def split: sum.splits)
  note sz = validate_sizes_Inr[OF s]
  have sum: "n_train + n_test = length arr"
    using validate_shuffle_split_sum[OF v] sz by linarith
  have len: "length ?p = length arr" by (rule shuffles_length[OF P])
  have dp: "distinct ?p" and sp: "set ?p = {0..<length arr}" using P by (simp_all add: shuffles_def)
  have t: "take n_train (drop n_test ?p) = drop n_test ?p" using len sum by simp
  have "set (drop n_test ?p) \<subseteq> {0..<length arr}" using sp set_drop_subset[of n_test ?p] by blast
  then have s1: "index_select arr (drop n_test ?p) = Inr (map (nth arr) (drop n_test ?p))"
    by (rule index_select_in_range)
  have "set (take n_test ?p) \<subseteq> {0..<length arr}" using sp set_take_subset[of n_test ?p] by blast
  then have s2: "index_select arr (take n_test ?p) = Inr (map (nth arr) (take n_test ?p))"
    by (rule index_select_in_range)
  from r have tr: "tr = map (nth arr) (drop n_test ?p)" and te: "te = map (nth arr) (take n_test ?p)"
    by (simp_all add: train_test_split_def v s Let_def t s1 s2)
  have whole: "te @ tr = map (nth arr) ?p" by (simp add: tr te flip: map_append)
  from map_nth_shuffle[OF dp sp d] whole
  have "distinct (te @ tr)" "set (te @ tr) = set arr" by simp_all
  then show "distinct (tr @ te)" "set tr \<union> set te = set arr" by auto
  show "length tr + length te = length arr" using tr te len sum by simp
  show "0 < length tr" using tr len sum sz by simp
  show "0 < length te" using te len sum sz by simp
qed


lemma split_data_fails_on_large_val:
  assumes P: "shuffles (rand 42)"
      and r1: "train_test_split (rand 42) [0..<num_nodes d] (f64 (1 - train_ratio)) = Inr (a, t)"
      and k: "py_int (f64 (val_ratio * real (num_nodes d))) = Inr k"
      and big: "int (length t) \<le> k"
  shows "split_data rand d train_ratio val_ratio = Inl ValueError"
proof -
  have d0: "distinct [0..<num_nodes d]" by simp
  have tpos: "0 < length t" by (rule train_test_split_Inr(5)[OF P r1 d0])
  have "real (length t) - real_of_int k \<le> 0" using big by linarith
  then have "(real (length t) - real_of_int k) / real (length t) \<le> 0"
    using tpos by (simp add: divide_le_0_iff)
  from f64_nonpos[OF this]
  have "validate_shuffle_split (length t)
          (f64 ((real (length t) - real_of_int k) / real (length t))) = Inl ValueError"
    by (rule validate_shuffle_split_nonpos)
  then have "train_test_split (rand 42) t
               (f64 ((real (length t) - real_of_int k) / real (length t))) = Inl ValueError"
    by (simp add: train_test_split_def)
  then show ?thesis using r1 k tpos by (simp add: split_data_def)
qed

lemma shuffles_identity: "shuffles (rng_identity s)"
  by (simp add: shuffles_def rng_identity_def)





text \<open>
  Claim C3, as the code has it. Nothing is clipped: when \<open>int (val_ratio * n)\<close> is at least
  the size of the pool that the first split leaves after the train assignment, the second
  test size is not positive and the partitioner fails with \<^verbatim>\<open>ValueError\<close>; no split is
  returned.
\<close>

theorem split_data_no_clipping:
  assumes "shuffles (rand 42)"
      and "train_test_split (rand 42) [0..<num_nodes d] (f64 (1 - train_ratio)) = Inr (a, pool)"
      and "py_int (f64 (val_ratio * real (num_nodes d))) = Inr k"
      and "int (length pool) \<le> k"
  shows "split_data rand d train_ratio val_ratio = Inl ValueError"
  using assms by (rule split_data_fails_on_large_val)

theorem split_data_no_clipping_witness:
  "shuffles (rng_identity 42)
   \<and> train_test_split (rng_identity 42) [0..<num_nodes (data_of_size 20)]
        (f64 (1 - py_float 0.7))
       = Inr ([7, 8, 9, 10, 11, 12, 13, 14, 15, 16, 17, 18, 19], [0, 1, 2, 3, 4, 5, 6])
   \<and> py_int (f64 (py_float 0.5 * real (num_nodes (data_of_size 20)))) = Inr 10
   \<and> split_data rng_identity (data_of_size 20) (py_float 0.7) (py_float 0.5) = Inl ValueError"
proof -
  have P: "shuffles (rng_identity 42)" by (rule shuffles_identity)
  have r1: "train_test_split (rng_identity 42) [0..<num_nodes (data_of_size 20)]
        (f64 (1 - py_float 0.7))
       = Inr ([7, 8, 9, 10, 11, 12, 13, 14, 15, 16, 17, 18, 19], [0, 1, 2, 3, 4, 5, 6])"
    by code_simp
  have k: "py_int (f64 (py_float 0.5 * real (num_nodes (data_of_size 20)))) = Inr 10"
    by code_simp
  have big: "int (length [0, 1, 2, 3, 4, 5, 6 :: nat]) \<le> 10" by simp
  from split_data_no_clipping[where rand=rng_identity, OF P r1 k big] P r1 k
  show ?thesis by blast
qed

text \<open>Ten nodes, \<open>train_ratio = 0.7\<close>, \<open>val_ratio = 0.5\<close>: the pool has 4 indices (the
  rounded product \<open>(1 - 0.7) * 10\<close> is above 3) and 5 are asked for.\<close>

theorem split_data_clipping_counterexample:
  "train_test_split (rng_reverse 42) [0..<num_nodes (data_of_size 10)] (f64 (1 - py_float 0.7))
     = Inr ([5, 4, 3, 2, 1, 0], [9, 8, 7, 6])
   \<and> py_int (f64 (py_float 0.5 * real (num_nodes (data_of_size 10)))) = Inr 5
   \<and> split_data rng_reverse (data_of_size 10) (py_float 0.7) (py_float 0.5) = Inl ValueError"
  by code_simp

text \<open>
  Claim C10. \<^verbatim>\<open>split_data\<close> has no seed parameter and asks the generator for seed 42
  only: on two data objects of the same node count, and with two generators that agree
  on seed 42 (whatever they do on other seeds), the same ratios give the same result.
\<close>

theorem split_data_fixed_random_state:
  "num_nodes d = num_nodes d' \<Longrightarrow> rand 42 = rand' 42 \<Longrightarrow>
     split_data rand d train_ratio val_ratio = split_data rand' d' train_ratio val_ratio"
  by (simp add: split_data_def cong: sum.case_cong prod.case_cong if_cong)

theorem split_data_fixed_random_state_witness:
  "num_nodes example_data = num_nodes (data_of_size 3)
   \<and> rng_identity 42 = rng_by_seed 42
   \<and> rng_identity 7 2 \<noteq> rng_by_seed 7 2
   \<and> split_data rng_identity example_data 0.34 0.34
       = split_data rng_by_seed (data_of_size 3) 0.34 0.34
   \<and> split_data rng_by_seed (data_of_size 3) 0.34 0.34 = Inr ([2], [1], [0])"
proof -
  have nn: "num_nodes example_data = num_nodes (data_of_size 3)"
    by (simp add: num_nodes_def data_of_size_def example_data_def)
  have r: "rng_identity 42 = rng_by_seed 42"
    by (rule ext) (simp add: rng_identity_def rng_by_seed_def)
  have ne: "rng_identity 7 2 \<noteq> rng_by_seed 7 2" by code_simp
  have v: "split_data rng_by_seed (data_of_size 3) 0.34 0.34 = Inr ([2], [1], [0])"
    by code_simp
  from split_data_fixed_random_state[where rand=rng_identity and rand'=rng_by_seed, OF nn r,
         of "0.34" "0.34"] nn r ne v
  show ?thesis by simp
qed

section \<open>Trainer\<close>

lemma criterion_on_empty: "criterion_on output target [] = Inr NaN"
  by (simp add: criterion_on_def index_select_def mse_loss_def fmean_def fsum_def)

lemma criterion_on_in_range:
  "list_all (\<lambda>i. i < length output) idx \<Longrightarrow> list_all (\<lambda>i. i < length target) idx \<Longrightarrow>
     \<exists>l. criterion_on output target idx = Inr l"
  by (simp add: criterion_on_def index_select_def)

lemma train_epoch_empty_train:
  assumes e: "train_idx d = []"
      and len: "\<forall>md m. length (forward L md m (x d) (edge_index d)) = length (y d)"
      and v: "list_all (\<lambda>i. i < length (y d)) (val_idx d)"
  shows "\<exists>st' line. train_epoch L d epochs epoch st = Inr (st', line) \<and> train_loss line = NaN"
proof -
  let ?out = "forward L Training (module_state st) (x d) (edge_index d)"
  have "list_all (\<lambda>i. i < length ?out) (val_idx d)" using len v by simp
  from criterion_on_in_range[OF this v]
  obtain vl where vl: "criterion_on ?out (y d) (val_idx d) = Inr vl" by blast
  show ?thesis
    by (simp add: train_epoch_def Let_def e criterion_on_empty vl split: prod.splits)
qed

lemma epoch_loop_empty_train:
  assumes e: "train_idx d = []"
      and len: "\<forall>md m. length (forward L md m (x d) (edge_index d)) = length (y d)"
      and v: "list_all (\<lambda>i. i < length (y d)) (val_idx d)"
  shows "\<exists>st' lines. epoch_loop L d epochs es st printed = Inr (st', printed @ lines)
           \<and> length lines = length es \<and> list_all (\<lambda>line. train_loss line = NaN) lines"
proof (induction es arbitrary: st printed)
  case Nil
  then show ?case by simp
next
  case (Cons epoch es)
  from train_epoch_empty_train[OF e len v, of epochs epoch st]
  obtain st1 line where s: "train_epoch L d epochs epoch st = Inr (st1, line)"
    and nan: "train_loss line = NaN" by blast
  from Cons.IH[of st1 "printed @ [line]"]
  obtain st' lines where r: "epoch_loop L d epochs es st1 (printed @ [line])
                               = Inr (st', (printed @ [line]) @ lines)"
    and l: "length lines = length es" and a: "list_all (\<lambda>line. train_loss line = NaN) lines"
    by blast
  have "epoch_loop L d epochs (epoch # es) st printed = Inr (st', printed @ (line # lines))"
    using s r by simp
  moreover have "length (line # lines) = length (epoch # es)" using l by simp
  moreover have "list_all (\<lambda>line. train_loss line = NaN) (line # lines)" using nan a by simp
  ultimately show ?case by blast
qed

text \<open>
  Claim C6, as the code has it. With an empty train split the trainer does not fail: the
  loss of the epoch is the mean of an empty tensor, NaN, and the loop runs its \<open>epochs\<close>
  passes and prints a line for each (the network returning one output per label, and
  the validation indices being row indices).
\<close>

theorem train_model_empty_train_split:
  assumes "train_idx d = []"
      and "\<forall>md m. length (forward L md m (x d) (edge_index d)) = length (y d)"
      and "list_all (\<lambda>i. i < length (y d)) (val_idx d)"
  shows "\<exists>st lines. train_model L model d epochs lr = Inr (st, lines)
           \<and> length lines = epochs \<and> list_all (\<lambda>line. train_loss line = NaN) lines"
  using epoch_loop_empty_train[OF assms, of epochs "[0..<epochs]" _ "[]"]
  by (simp add: train_model_def)

theorem train_model_empty_train_split_witness:
  "train_idx (example_data\<lparr>train_idx := []\<rparr>) = []
   \<and> list_all (\<lambda>i. i < length (y (example_data\<lparr>train_idx := []\<rparr>)))
        (val_idx (example_data\<lparr>train_idx := []\<rparr>))
   \<and> (\<exists>st lines. train_model linear_learner (Training, 1) (example_data\<lparr>train_idx := []\<rparr>) 2 0.1
                      = Inr (st, lines)
          \<and> length lines = 2 \<and> list_all (\<lambda>line. train_loss line = NaN) lines)"
proof -
  let ?d = "example_data\<lparr>train_idx := []\<rparr>"
  have e: "train_idx ?d = []" by simp
  have len: "\<forall>md m. length (forward linear_learner md m (x ?d) (edge_index ?d)) = length (y ?d)"
    by (simp add: linear_learner_def linear_forward_def example_data_def)
  have v: "list_all (\<lambda>i. i < length (y ?d)) (val_idx ?d)"
    by (simp add: example_data_def)
  from train_model_empty_train_split[OF e len v, of "(Training, 1)" 2 "0.1"] e v
  show ?thesis by blast
qed

text \<open>The small learner on the three-node data with no training row, two epochs: the
  trainer returns, with NaN as the train loss of both lines.\<close>

theorem train_model_empty_train_split_counterexample:
  "train_model linear_learner (Training, 1) (example_data\<lparr>train_idx := []\<rparr>) 2 0.1
     = Inr (\<lparr>module_mode = Evaluation, module_state = 1, optim_state = 0.1\<rparr>,
            [\<lparr>epoch_no = 1, epochs_total = 2, train_loss = NaN, val_loss = Fin 16\<rparr>,
             \<lparr>epoch_no = 2, epochs_total = 2, train_loss = NaN, val_loss = Fin 16\<rparr>])"
  by code_simp

text \<open>
  Claim C1. The validation loss of an epoch is computed from \<^verbatim>\<open>output\<close>, the forward
  pass made in training mode before \<^verbatim>\<open>optimizer.step()\<close>; no forward pass follows
  \<^verbatim>\<open>model.eval()\<close>. On the small learner, one epoch from weight 0 with learning rate
  0.1: the weight becomes 0.4, the line printed carries the validation loss 49 of the
  old output, and a forward pass of the updated module would give 33.64.
\<close>

theorem val_loss_uses_output_before_update:
  "train_model linear_learner (Evaluation, 0) example_data 1 0.1
     = Inr (\<lparr>module_mode = Evaluation, module_state = 0.4, optim_state = 0.1\<rparr>,
            [\<lparr>epoch_no = 1, epochs_total = 1, train_loss = Fin 4, val_loss = Fin 49\<rparr>])
   \<and> criterion_on (forward linear_learner Training 0 (x example_data) (edge_index example_data))
        (y example_data) (val_idx example_data) = Inr (Fin 49)
   \<and> criterion_on (forward linear_learner Evaluation 0.4 (x example_data) (edge_index example_data))
        (y example_data) (val_idx example_data) = Inr (Fin 33.64)"
  by code_simp

text \<open>The same for every learner: the validation loss printed is that of the output
  computed before the update, and the validation indices do not reach the update.\<close>

lemma train_epoch_val_loss:
  assumes "train_epoch L d epochs epoch st = Inr (st', line)"
  shows "criterion_on (forward L Training (module_state st) (x d) (edge_index d)) (y d) (val_idx d)
           = Inr (val_loss line)"
  using assms
  by (auto simp: train_epoch_def Let_def split: sum.splits prod.splits)

lemma loss_fn_ignores_val_idx: "loss_fn L (d\<lparr>val_idx := v\<rparr>) = loss_fn L d"
  by (rule ext) (simp add: loss_fn_def)

lemma train_epoch_ignores_val_idx:
  assumes "train_epoch L (d\<lparr>val_idx := v\<rparr>) epochs epoch st = Inr (st1, line1)"
      and "train_epoch L (d\<lparr>val_idx := v'\<rparr>) epochs epoch st = Inr (st2, line2)"
  shows "st1 = st2 \<and> train_loss line1 = train_loss line2"
  using assms
  by (auto simp: train_epoch_def Let_def loss_fn_ignores_val_idx split: sum.splits prod.splits)

section \<open>Evaluator and label standardisation\<close>

lemma rnd_Fin: "rnd a = Fin c \<Longrightarrow> \<exists>z. a = Fin z \<and> f64 z = Fin c"
  by (cases a) (auto simp: rnd_def)

text \<open>A rounding in the normal range, as two-sided bounds.\<close>

lemma f64_normal_bounds:
  assumes "2 powi (- 1022) \<le> a" "a < 2 powi 1023"
  obtains c where "f64 a = Fin c" "a * (1 - 1 / 2 ^ 53) \<le> c" "c \<le> a * (1 + 1 / 2 ^ 53)"
proof -
  from f64_normal[OF assms] obtain c where c: "f64 a = Fin c" "\<bar>c - a\<bar> \<le> a / 2 ^ 53" by blast
  define t where "t = a / 2 ^ 53"
  have e: "a * (1 - 1 / 2 ^ 53) = a - t" "a * (1 + 1 / 2 ^ 53) = a + t"
    by (simp_all add: t_def algebra_simps)
  have "\<bar>c - a\<bar> \<le> t" using c(2) by (simp only: t_def)
  then have "a - t \<le> c" "c \<le> a + t" by linarith+
  then have "a * (1 - 1 / 2 ^ 53) \<le> c" "c \<le> a * (1 + 1 / 2 ^ 53)" by (simp_all only: e)
  with c(1) show ?thesis by (rule that)
qed

lemma pow2_bounds:
  "(2::real) powi (- 1022) \<le> 2 powi (- 538)" "(2::real) powi 513 < 2 powi 1023"
  "(2::real) powi (- 1022) \<le> 1 / 8" "(8::real) < 2 powi 1023"
proof -
  show "(2::real) powi (- 1022) \<le> 2 powi (- 538)" by (rule power_int_increasing) simp_all
  show "(2::real) powi 513 < 2 powi 1023" by (rule power_int_strict_increasing) simp_all
  have "(2::real) powi (- 1022) \<le> 2 powi (- 3)" by (rule power_int_increasing) simp_all
  also have "(2::real) powi (- 3) = 1 / 8" by (simp add: power_int_minus)
  finally show "(2::real) powi (- 1022) \<le> 1 / 8" .
  have "(2::real) powi 3 < 2 powi 1023" by (rule power_int_strict_increasing) simp_all
  then show "(8::real) < 2 powi 1023" by simp
qed

lemma sqrt_range:
  assumes "2 powi (- 1074) \<le> c" "c < 2 powi 1024"
  shows "2 powi (- 537) \<le> sqrt c" "sqrt c < 2 powi 512"
proof -
  have "((2::real) powi (- 537))\<^sup>2 = 2 powi (- 537) * 2 powi (- 537)" by (simp add: power2_eq_square)
  also have "\<dots> = 2 powi (- 537 + - 537)" by (rule power_int_add[symmetric]) simp
  finally have "((2::real) powi (- 537))\<^sup>2 \<le> c" using assms(1) by simp
  then show "2 powi (- 537) \<le> sqrt c" by (rule real_le_rsqrt)
  have "((2::real) powi 512)\<^sup>2 = 2 powi 512 * 2 powi 512" by (simp add: power2_eq_square)
  also have "\<dots> = 2 powi (512 + 512)" by (rule power_int_add[symmetric]) simp
  finally have "c < ((2::real) powi 512)\<^sup>2" using assms(2) by simp
  then show "sqrt c < 2 powi 512" by (intro real_less_lsqrt) simp_all
qed

text \<open>The quotient \<open>c / s / s\<close> in binary64, where \<open>s\<close> is the rounded square root of a
  positive binary64 number \<open>c\<close>: three roundings, each with a relative error of at most
  \<open>2 ^ -53\<close>, so the result is not below \<open>1 - 2 ^ -51\<close>.\<close>

lemma self_correlation:
  assumes r: "f64 z = Fin c" and pos: "0 < c"
  shows "\<exists>v. rdiv (rdiv (Fin c) (rsqrt (Fin c))) (rsqrt (Fin c)) = Fin v
           \<and> 1 - 1 / 2 ^ 51 \<le> v"
proof -
  define u :: real where "u = 1 / 2 ^ 53"
  have u: "0 < u" "u \<le> 1 / 2" by (simp_all add: u_def)
  define s0 where "s0 = sqrt c"
  have s0pos: "0 < s0" using pos by (simp add: s0_def)
  have s0sq: "s0 * s0 = c" using pos by (simp add: s0_def)
  note rg = f64_pos_range[OF r pos]
  note sr = sqrt_range[OF rg]
  have lo0: "2 powi (- 1022) \<le> s0"
  proof -
    have "(2::real) powi (- 1022) \<le> 2 powi (- 537)" by (rule power_int_increasing) simp_all
    with sr(1) show ?thesis by (simp add: s0_def)
  qed
  have hi0: "s0 < 2 powi 1023"
  proof -
    have "(2::real) powi 512 < 2 powi 1023" by (rule power_int_strict_increasing) simp_all
    with sr(2) show ?thesis by (simp add: s0_def)
  qed
  from f64_normal_bounds[OF lo0 hi0] obtain s where
    s: "f64 s0 = Fin s" "s0 * (1 - 1 / 2 ^ 53) \<le> s" "s \<le> s0 * (1 + 1 / 2 ^ 53)" by blast
  have s_lo: "s0 * (1 - u) \<le> s" and s_hi: "s \<le> s0 * (1 + u)" using s(2,3) by (simp_all add: u_def)
  have "s0 * (1 / 2) \<le> s0 * (1 - u)" using s0pos u by (intro mult_left_mono) simp_all
  with s_lo have s_half: "s0 / 2 \<le> s" by simp
  have "s0 * (1 + u) \<le> s0 * 2" using s0pos u by (intro mult_left_mono) simp_all
  with s_hi have s_dbl: "s \<le> 2 * s0" by simp
  have spos: "0 < s" using s_half s0pos by linarith
  have rs: "rsqrt (Fin c) = Fin s" using pos s(1) by (simp add: rsqrt_def rnd_def s0_def)
  \<comment> \<open>first quotient\<close>
  define q1 where "q1 = c / s"
  have q1_hi: "q1 \<le> 2 * s0"
  proof -
    have "c = s0 * s0" using s0sq by simp
    also have "\<dots> \<le> (2 * s) * s0" using s_half s0pos by (intro mult_right_mono) simp_all
    finally have "c \<le> (2 * s0) * s" by (simp add: mult_ac)
    then show ?thesis using spos by (simp add: q1_def pos_divide_le_eq)
  qed
  have q1_lo: "s0 / 2 \<le> q1"
  proof -
    have "(s0 / 2) * s \<le> (s0 / 2) * (2 * s0)" using s_dbl s0pos by (intro mult_left_mono) simp_all
    also have "\<dots> = c" using s0sq by simp
    finally show ?thesis using spos by (simp add: q1_def pos_le_divide_eq)
  qed
  have q1pos: "0 < q1" using q1_lo s0pos by linarith
  have l1: "2 powi (- 1022) \<le> q1"
  proof -
    have "(2::real) powi (- 538) = 2 powi (- 537 - 1)" by simp
    also have "\<dots> = 2 powi (- 537) / 2 powi 1" by (rule power_int_diff) simp
    also have "\<dots> \<le> s0 / 2" using sr(1) by (simp add: s0_def)
    finally show ?thesis using pow2_bounds(1) q1_lo by linarith
  qed
  have h1: "q1 < 2 powi 1023"
  proof -
    have "2 * s0 < 2 * 2 powi 512" using sr(2) by (simp add: s0_def)
    also have "2 * (2::real) powi 512 = 2 powi 1 * 2 powi 512" by simp
    also have "\<dots> = 2 powi (1 + 512)" by (rule power_int_add[symmetric]) simp
    finally have "2 * s0 < 2 powi 513" by simp
    with q1_hi pow2_bounds(2) show ?thesis by linarith
  qed
  from f64_normal_bounds[OF l1 h1] obtain d1 where
    d1: "f64 q1 = Fin d1" "q1 * (1 - 1 / 2 ^ 53) \<le> d1" "d1 \<le> q1 * (1 + 1 / 2 ^ 53)" by blast
  have d1_lo: "q1 * (1 - u) \<le> d1" and d1_hi: "d1 \<le> q1 * (1 + u)"
    using d1(2,3) by (simp_all add: u_def)
  have "q1 * (1 / 2) \<le> q1 * (1 - u)" using q1pos u by (intro mult_left_mono) simp_all
  with d1_lo have d1_half: "q1 / 2 \<le> d1" by simp
  have "q1 * (1 + u) \<le> q1 * 2" using q1pos u by (intro mult_left_mono) simp_all
  with d1_hi have d1_dbl: "d1 \<le> 2 * q1" by simp
  have d1pos: "0 < d1" using d1_half q1pos by linarith
  have rd1: "rdiv (Fin c) (Fin s) = Fin d1" using spos d1(1) by (simp add: rdiv_def rnd_def q1_def)
  \<comment> \<open>second quotient\<close>
  define q2 where "q2 = d1 / s"
  have q2_lo: "1 / 8 \<le> q2"
  proof -
    have "(1 / 8) * s \<le> (1 / 8) * (2 * s0)" using s_dbl by simp
    also have "\<dots> = (s0 / 2) / 2" by simp
    also have "\<dots> \<le> q1 / 2" using q1_lo by simp
    also have "\<dots> \<le> d1" by (rule d1_half)
    finally show ?thesis using spos by (simp add: q2_def pos_le_divide_eq)
  qed
  have q2_hi: "q2 \<le> 8"
  proof -
    have "d1 \<le> 2 * q1" by (rule d1_dbl)
    also have "\<dots> \<le> 2 * (2 * s0)" using q1_hi by simp
    also have "\<dots> = 8 * (s0 / 2)" by simp
    also have "\<dots> \<le> 8 * s" using s_half by simp
    finally show ?thesis using spos by (simp add: q2_def pos_divide_le_eq)
  qed
  have q2pos: "0 < q2" using q2_lo by linarith
  have l2: "2 powi (- 1022) \<le> q2" using q2_lo pow2_bounds(3) by linarith
  have h2: "q2 < 2 powi 1023" using q2_hi pow2_bounds(4) by linarith
  from f64_normal_bounds[OF l2 h2] obtain d2 where
    d2: "f64 q2 = Fin d2" "q2 * (1 - 1 / 2 ^ 53) \<le> d2" "d2 \<le> q2 * (1 + 1 / 2 ^ 53)" by blast
  have d2_lo: "q2 * (1 - u) \<le> d2" and d2_hi: "d2 \<le> q2 * (1 + u)"
    using d2(2,3) by (simp_all add: u_def)
  have rd2: "rdiv (Fin d1) (Fin s) = Fin d2" using spos d2(1) by (simp add: rdiv_def rnd_def q2_def)
  \<comment> \<open>the exact quotient \<open>c / (s * s)\<close> is between \<open>1 / (1 + u)\<^sup>2\<close> and \<open>1 / (1 - u)\<^sup>2\<close>\<close>
  have um: "0 < 1 - u" "0 < 1 + u" using u by simp_all
  have ss_hi: "s * s \<le> c * ((1 + u) * (1 + u))"
  proof -
    have "s * s \<le> (s0 * (1 + u)) * (s0 * (1 + u))"
      using s_hi spos by (intro mult_mono) simp_all
    also have "\<dots> = (s0 * s0) * ((1 + u) * (1 + u))" by (simp add: mult_ac)
    finally show ?thesis using s0sq by simp
  qed
  have q1s: "q1 / s = c / (s * s)" by (simp add: q1_def)
  have sspos: "0 < s * s" using spos by simp
  have hpos: "0 < c * ((1 + u) * (1 + u))" using pos um by simp
  \<comment> \<open>lower bound\<close>
  have lower: "(1 - u) * (1 - u) / ((1 + u) * (1 + u)) \<le> d2"
  proof -
    have "c / (c * ((1 + u) * (1 + u))) \<le> c / (s * s)"
    proof (rule divide_left_mono[OF ss_hi])
      show "0 \<le> c" using pos by simp
      show "0 < c * ((1 + u) * (1 + u)) * (s * s)" using hpos sspos by (rule mult_pos_pos)
    qed
    then have a: "1 / ((1 + u) * (1 + u)) \<le> q1 / s" using pos q1s by simp
    have "q1 * (1 - u) / s \<le> d1 / s" using d1_lo spos by (simp add: divide_right_mono)
    then have b: "(q1 / s) * (1 - u) \<le> q2" by (simp add: q2_def)
    have "(1 / ((1 + u) * (1 + u))) * (1 - u) \<le> (q1 / s) * (1 - u)"
      using a um by (intro mult_right_mono) simp_all
    with b have "(1 - u) / ((1 + u) * (1 + u)) \<le> q2" by simp
    then have "((1 - u) / ((1 + u) * (1 + u))) * (1 - u) \<le> q2 * (1 - u)"
      using um by (intro mult_right_mono) simp_all
    with d2_lo show ?thesis by (simp add: mult_ac)
  qed
  have n1: "1 - 1 / 2 ^ 51 \<le> (1 - u) * (1 - u) / ((1 + u) * (1 + u))" by (simp add: u_def)
  have "rdiv (rdiv (Fin c) (rsqrt (Fin c))) (rsqrt (Fin c)) = Fin d2" by (simp add: rs rd1 rd2)
  moreover have "1 - 1 / 2 ^ 51 \<le> d2" using lower n1 by linarith
  ultimately show ?thesis by blast
qed

lemma foldl_fadd_Fin: "foldl fadd (Fin a) (map (\<lambda>v. Fin (f v)) xs) = Fin (a + sum_list (map f xs))"
  by (induction xs arbitrary: a) (simp_all add: add.assoc)

lemma fsum_Fin: "fsum (map (\<lambda>v. Fin (f v)) xs) = Fin (sum_list (map f xs))"
  by (simp add: fsum_def foldl_fadd_Fin)

lemma fmean_Fin:
  "xs \<noteq> [] \<Longrightarrow> fmean (map (\<lambda>v. Fin (f v)) xs) = Fin (sum_list (map f xs) / real (length xs))"
  by (simp add: fmean_def fsum_Fin)

lemma fmean_const: "xs \<noteq> [] \<Longrightarrow> fmean (map (\<lambda>_. Fin c) xs) = Fin c"
  by (simp add: fmean_Fin sum_list_triv)

lemma fmean_empty: "fmean [] = NaN"
  by (simp add: fmean_def fsum_def)

lemma map2_same: "map2 f xs xs = map (\<lambda>v. f v v) xs"
  by (simp add: zip_same_conv_map)

lemma all_finite_Fin: "list_all is_finite (map Fin rs)"
  by (simp add: list_all_iff is_finite_def)

lemma sum_list_pos_member:
  fixes f :: "'a \<Rightarrow> real"
  assumes "\<forall>v\<in>set xs. 0 \<le> f v" "a \<in> set xs" "0 < f a"
  shows "0 < sum_list (map f xs)"
  using assms
proof (induction xs)
  case Nil
  then show ?case by simp
next
  case (Cons v xs)
  have nn: "0 \<le> sum_list (map f xs)" using Cons.prems(1) by (auto intro!: sum_list_nonneg)
  show ?case
  proof (cases "a = v")
    case True
    with Cons.prems nn show ?thesis by simp
  next
    case False
    with Cons have "0 < sum_list (map f xs)" by simp
    moreover have "0 \<le> f v" using Cons.prems(1) by simp
    ultimately show ?thesis by simp
  qed
qed

lemma mae_exact:
  assumes "rs \<noteq> []"
  shows "mean_absolute_error (map Fin rs) (map Fin rs) = Inr (Fin 0)"
proof -
  have c: "check_arrays (map Fin rs) (map Fin rs)"
    using assms by (simp add: check_arrays_def all_finite_Fin)
  have "map2 (\<lambda>t p. fabs (fsub p t)) (map Fin rs) (map Fin rs) = map (\<lambda>_. Fin 0) rs"
    by (simp add: map2_same fsub_def comp_def)
  then show ?thesis
    using assms by (simp add: mean_absolute_error_def c fmean_const)
qed

lemma mse_exact:
  assumes "rs \<noteq> []"
  shows "mean_squared_error (map Fin rs) (map Fin rs) = Inr (Fin 0)"
proof -
  have c: "check_arrays (map Fin rs) (map Fin rs)"
    using assms by (simp add: check_arrays_def all_finite_Fin)
  have "map2 (\<lambda>t p. fmul (fsub t p) (fsub t p)) (map Fin rs) (map Fin rs)
          = map (\<lambda>_. Fin 0) rs"
    by (simp add: map2_same fsub_def comp_def)
  then show ?thesis
    using assms by (simp add: mean_squared_error_def c fmean_const)
qed

lemma mape_exact:
  assumes "rs \<noteq> []" "list_all (\<lambda>r. r \<noteq> 0) rs"
  shows "fmul (fmean (map2 (\<lambda>t p. fabs (fdiv (fsub t p) t)) (map Fin rs) (map Fin rs))) (Fin 100)
           = Fin 0"
proof -
  have "map2 (\<lambda>t p. fabs (fdiv (fsub t p) t)) (map Fin rs) (map Fin rs) = map (\<lambda>_. Fin 0) rs"
    using assms(2) by (simp add: map2_same fsub_def comp_def list_all_iff)
  then show ?thesis
    using assms(1) by (simp add: fmean_const)
qed

lemma deltas_finite:
  "\<forall>v\<in>set (map2 fsub (map Fin as) (map Fin bs)). \<exists>r. v = Fin r"
  by (auto simp: zip_map_map fsub_def)

lemma directional_accuracy_exact:
  assumes "2 \<le> length rs"
  shows "directional_accuracy (map Fin rs) (map Fin rs) = Fin 1"
proof -
  let ?D = "map2 fsub (tl (map Fin rs)) (butlast (map Fin rs))"
  have "length ?D = length rs - 1" by simp
  with assms have ne: "?D \<noteq> []" by (cases ?D) simp_all
  have "?D = map2 fsub (map Fin (tl rs)) (map Fin (butlast rs))"
    by (simp add: map_tl map_butlast)
  with deltas_finite[of "tl rs" "butlast rs"] have fin: "\<forall>v\<in>set ?D. \<exists>r. v = Fin r" by simp
  have "map (\<lambda>b. Fin (if b then 1 else 0)) (map2 (\<lambda>dp dt. feq (np_sign dp) (np_sign dt)) ?D ?D)
          = map (\<lambda>_. Fin 1) ?D"
    unfolding map2_same using fin by (auto simp: feq_def)
  then have "directional_accuracy (map Fin rs) (map Fin rs) = fmean (map (\<lambda>_. Fin 1) ?D)"
    by (simp only: directional_accuracy_def mean_bool_def)
  also have "\<dots> = Fin 1" by (rule fmean_const[OF ne])
  finally show ?thesis .
qed

lemma tensor_index_one:
  "i < length xs \<Longrightarrow> tensor_index xs [i] = Inr (Scalar (xs ! i))"
  by (simp add: tensor_index_def)

lemma test_metrics_exact:
  assumes nz: "list_all (\<lambda>r. r \<noteq> 0) rs" and len: "2 \<le> length rs"
  shows "test_metrics (map Fin rs) (map Fin rs)
           = Inr \<lparr>MAE = Fin 0, RMSE = Fin 0, MAPE = Fin 0, Directional_Accuracy = Fin 100,
                  Sharpe_Ratio = sharpe_ratio (map Fin rs) (map Fin rs),
                  Information_Coefficient = np_corrcoef01 (map Fin rs) (map Fin rs),
                  Hit_Rate = fmul (mean_bool (map2 (\<lambda>p t. feq (np_sign p) (np_sign t))
                                                (map Fin rs) (map Fin rs))) (Fin 100)\<rparr>"
proof -
  have ne: "rs \<noteq> []" using len by auto
  show ?thesis
    by (simp add: test_metrics_def mae_exact[OF ne] mse_exact[OF ne] mape_exact[OF ne nz]
          directional_accuracy_exact[OF len])
qed

lemma corrcoef_zero_variance:
  assumes "np_cov ts ts = Fin 0"
  shows "np_corrcoef01 ts ts = NaN"
  by (simp add: np_corrcoef01_def assms rsqrt_def rdiv_def rnd_def f64_zero)

lemma corrcoef_positive_variance:
  assumes c: "np_cov ts ts = Fin c" and pos: "0 < c"
  shows "\<exists>v. np_corrcoef01 ts ts = Fin v \<and> 1 - 1 / 2 ^ 51 \<le> v \<and> v \<le> 1"
proof -
  from c have "\<exists>z. f64 z = Fin c"
    unfolding np_cov_def Let_def rmul_def by (blast dest: rnd_Fin)
  then obtain z where z: "f64 z = Fin c" by blast
  from self_correlation[OF z pos] obtain v where
    v: "rdiv (rdiv (Fin c) (rsqrt (Fin c))) (rsqrt (Fin c)) = Fin v" "1 - 1 / 2 ^ 51 \<le> v"
    by blast
  have "np_corrcoef01 ts ts = Fin (min 1 (max (- 1) v))"
    by (simp add: np_corrcoef01_def c v(1))
  moreover have "1 - 1 / 2 ^ 51 \<le> min 1 (max (- 1) v)" using v(2) by simp
  moreover have "min 1 (max (- 1) v) \<le> 1" by simp
  ultimately show ?thesis by blast
qed

text \<open>
  Claim C8, as the code has it. When the test rows, at least two, of the labels and of
  the predictions are the same finite nonzero numbers, the evaluator reports MAE 0,
  RMSE 0, MAPE 0 and directional accuracy 100. The information coefficient is computed
  in binary64 from the covariance \<open>c\<close> of the labels with themselves: it is NaN when
  \<open>c\<close> is 0, and when \<open>c\<close> is positive it is a number between \<open>1 - 2 ^ -51\<close> and 1.
\<close>

theorem exact_predictions_metrics:
  assumes "tensor_index (y d) (test_idx d) = Inr (Array (map Fin rs))"
      and "tensor_index (forward L Evaluation m (x d) (edge_index d)) (test_idx d)
             = Inr (Array (map Fin rs))"
      and "list_all (\<lambda>r. r \<noteq> 0) rs"
      and "2 \<le> length rs"
  shows "\<exists>r. evaluate_model L m d = Inr r
           \<and> MAE r = Fin 0 \<and> RMSE r = Fin 0 \<and> MAPE r = Fin 0
           \<and> Directional_Accuracy r = Fin 100
           \<and> (np_cov (map Fin rs) (map Fin rs) = Fin 0 \<longrightarrow> Information_Coefficient r = NaN)
           \<and> (\<forall>c. np_cov (map Fin rs) (map Fin rs) = Fin c \<and> 0 < c \<longrightarrow>
                 (\<exists>v. Information_Coefficient r = Fin v \<and> 1 - 1 / 2 ^ 51 \<le> v \<and> v \<le> 1))"
proof -
  have ev: "evaluate_model L m d = test_metrics (map Fin rs) (map Fin rs)"
    using assms(1,2) by (simp add: evaluate_model_def)
  have z: "np_cov (map Fin rs) (map Fin rs) = Fin 0 \<longrightarrow>
             np_corrcoef01 (map Fin rs) (map Fin rs) = NaN"
    by (blast intro: corrcoef_zero_variance)
  have p: "\<forall>c. np_cov (map Fin rs) (map Fin rs) = Fin c \<and> 0 < c \<longrightarrow>
             (\<exists>v. np_corrcoef01 (map Fin rs) (map Fin rs) = Fin v \<and> 1 - 1 / 2 ^ 51 \<le> v \<and> v \<le> 1)"
    by (blast intro: corrcoef_positive_variance)
  show ?thesis
    unfolding ev test_metrics_exact[OF assms(3,4)] using z p by simp
qed

lemma cov_4_8: "np_cov [Fin 4, Fin 8] [Fin 4, Fin 8] = Fin 8"
  by code_simp

lemma cov_2_2: "np_cov [Fin 2, Fin 2] [Fin 2, Fin 2] = Fin 0"
  by code_simp

theorem exact_predictions_metrics_witness:
  "tensor_index (y doubled_data) (test_idx doubled_data) = Inr (Array (map Fin [4, 8]))
   \<and> tensor_index (forward linear_learner Evaluation 2 (x doubled_data) (edge_index doubled_data))
        (test_idx doubled_data) = Inr (Array (map Fin [4, 8]))
   \<and> list_all (\<lambda>r. r \<noteq> 0) [4, 8 :: real]
   \<and> np_cov (map Fin [4, 8]) (map Fin [4, 8]) = Fin 8
   \<and> (\<exists>r. evaluate_model linear_learner 2 doubled_data = Inr r
          \<and> MAE r = Fin 0 \<and> RMSE r = Fin 0 \<and> MAPE r = Fin 0
          \<and> Directional_Accuracy r = Fin 100
          \<and> (\<exists>v. Information_Coefficient r = Fin v \<and> 1 - 1 / 2 ^ 51 \<le> v \<and> v \<le> 1))"
proof -
  have h1: "tensor_index (y doubled_data) (test_idx doubled_data) = Inr (Array (map Fin [4, 8]))"
    by (simp add: tensor_index_def doubled_data_def)
  have h2: "tensor_index (forward linear_learner Evaluation 2 (x doubled_data)
               (edge_index doubled_data)) (test_idx doubled_data) = Inr (Array (map Fin [4, 8]))"
    by (simp add: tensor_index_def doubled_data_def linear_learner_def linear_forward_def)
  have h3: "list_all (\<lambda>r. r \<noteq> 0) [4, 8 :: real]" by simp
  have h4: "2 \<le> length [4, 8 :: real]" by simp
  have c: "np_cov (map Fin [4, 8]) (map Fin [4, 8]) = Fin 8" using cov_4_8 by simp
  from exact_predictions_metrics[OF h1 h2 h3 h4] c
  have "\<exists>r. evaluate_model linear_learner 2 doubled_data = Inr r
          \<and> MAE r = Fin 0 \<and> RMSE r = Fin 0 \<and> MAPE r = Fin 0
          \<and> Directional_Accuracy r = Fin 100
          \<and> (\<exists>v. Information_Coefficient r = Fin v \<and> 1 - 1 / 2 ^ 51 \<le> v \<and> v \<le> 1)"
    by fastforce
  with h1 h2 h3 c show ?thesis by blast
qed

text \<open>Two test rows with the same label 2, predicted exactly: the labels have no
  variance and the information coefficient is NaN.\<close>

theorem exact_predictions_constant_labels_counterexample:
  "evaluate_model linear_learner 2 flat_data
     = Inr \<lparr>MAE = Fin 0, RMSE = Fin 0, MAPE = Fin 0, Directional_Accuracy = Fin 100,
            Sharpe_Ratio = Fin 0, Information_Coefficient = NaN, Hit_Rate = Fin 100\<rparr>"
proof -
  have ic: "np_corrcoef01 [Fin 2, Fin 2] [Fin 2, Fin 2] = NaN"
    by (rule corrcoef_zero_variance[OF cov_2_2])
  show ?thesis
    by (simp add: evaluate_model_def tensor_index_def flat_data_def linear_learner_def
          linear_forward_def test_metrics_def mean_absolute_error_def mean_squared_error_def
          check_arrays_def is_finite_def fmean_def fsum_def fsub_def directional_accuracy_def
          mean_bool_def sharpe_ratio_def np_std_def feq_def ic)
qed

text \<open>
  Claim C7. A test split of one row makes the evaluator fail: the one-element index
  tensor selects a scalar from each array and \<^verbatim>\<open>mean_absolute_error\<close> refuses it, so
  no report is made and neither the guard of the Sharpe ratio nor the directional
  accuracy is reached.
\<close>

theorem single_test_row_raises:
  "evaluate_model linear_learner 1.5 (doubled_data\<lparr>test_idx := [1]\<rparr>) = Inl TypeError"
  by (simp add: evaluate_model_def tensor_index_def doubled_data_def linear_learner_def
        linear_forward_def)

text \<open>The same for every learner and every one-row test split.\<close>

lemma evaluate_model_one_row:
  assumes "test_idx d = [i]" "i < length (y d)"
      and "i < length (forward L Evaluation m (x d) (edge_index d))"
  shows "evaluate_model L m d = Inl TypeError"
  using assms by (simp add: evaluate_model_def tensor_index_def)

text \<open>
  Claim C4. The label vector is divided by its standard deviation with no guard. Three
  nodes with the same label have standard deviation 0 and every label becomes \<open>0/0\<close>,
  NaN; a single node has the corrected standard deviation \<open>0/0\<close> and its label becomes
  NaN as well.
\<close>

theorem constant_labels_become_nan:
  "standardize_labels [Fin 2, Fin 2, Fin 2] = [NaN, NaN, NaN]
   \<and> standardize_labels [Fin 5] = [NaN]"
  by (simp add: standardize_labels_def torch_std_def fmean_def fsum_def fsub_def)

end
